theory Spec2Isabelle
  imports Complex_Main
begin

section \<open>Numbers of the source language\<close>

text \<open>
  The calculator is TypeScript: every \<^verbatim>\<open>number\<close> is a double. The model keeps the
  values that are not numbers (\<^verbatim>\<open>NaN\<close>, \<^verbatim>\<open>Infinity\<close>, \<^verbatim>\<open>-Infinity\<close>), because a
  division by zero produces them silently and they flow through the rest of the
  computation. Finite values are idealised as exact reals: no rounding, no overflow,
  and one zero (taken as \<^verbatim>\<open>+0\<close> where its sign would matter, in a divisor). What is
  proved of a computed amount in this arithmetic holds of the source up to the rounding
  of its doubles, and is stated so where a property compares two computed amounts; the
  rounding itself is the subject of the section on double precision.
\<close>

datatype jsnum = Num real | PInf | NInf | NaN

instantiation jsnum :: "{plus, minus, uminus, times, divide}"
begin

fun uminus_jsnum :: "jsnum \<Rightarrow> jsnum" where
  "- (Num a) = Num (- a)"
| "- PInf = NInf"
| "- NInf = PInf"
| "- NaN = NaN"

fun plus_jsnum :: "jsnum \<Rightarrow> jsnum \<Rightarrow> jsnum" where
  "Num a + Num b = Num (a + b)"
| "NaN + _ = NaN"
| "_ + NaN = NaN"
| "PInf + NInf = NaN"
| "NInf + PInf = NaN"
| "PInf + _ = PInf"
| "_ + PInf = PInf"
| "NInf + _ = NInf"
| "_ + NInf = NInf"

definition minus_jsnum :: "jsnum \<Rightarrow> jsnum \<Rightarrow> jsnum" where
  "a - b = a + (- b)" for a b :: jsnum

fun times_jsnum :: "jsnum \<Rightarrow> jsnum \<Rightarrow> jsnum" where
  "Num a * Num b = Num (a * b)"
| "NaN * _ = NaN"
| "_ * NaN = NaN"
| "Num a * PInf = (if a = 0 then NaN else if 0 < a then PInf else NInf)"
| "Num a * NInf = (if a = 0 then NaN else if 0 < a then NInf else PInf)"
| "PInf * Num b = (if b = 0 then NaN else if 0 < b then PInf else NInf)"
| "NInf * Num b = (if b = 0 then NaN else if 0 < b then NInf else PInf)"
| "PInf * PInf = PInf"
| "PInf * NInf = NInf"
| "NInf * PInf = NInf"
| "NInf * NInf = PInf"

fun divide_jsnum :: "jsnum \<Rightarrow> jsnum \<Rightarrow> jsnum" where
  "divide_jsnum (Num a) (Num b) =
     (if b = 0 then (if a = 0 then NaN else if 0 < a then PInf else NInf)
      else Num (a / b))"
| "divide_jsnum NaN _ = NaN"
| "divide_jsnum _ NaN = NaN"
| "divide_jsnum (Num a) PInf = Num 0"
| "divide_jsnum (Num a) NInf = Num 0"
| "divide_jsnum PInf (Num b) = (if 0 \<le> b then PInf else NInf)"
| "divide_jsnum NInf (Num b) = (if 0 \<le> b then NInf else PInf)"
| "divide_jsnum PInf PInf = NaN"
| "divide_jsnum PInf NInf = NaN"
| "divide_jsnum NInf PInf = NaN"
| "divide_jsnum NInf NInf = NaN"

instance ..

end

instantiation jsnum :: inverse
begin

definition inverse_jsnum :: "jsnum \<Rightarrow> jsnum" where
  "inverse_jsnum a = divide (Num 1) a"

instance ..

end

text \<open>The comparisons \<^verbatim>\<open><=\<close> and \<^verbatim>\<open>>\<close> are false as soon as one side is \<^verbatim>\<open>NaN\<close>.\<close>

fun js_le :: "jsnum \<Rightarrow> jsnum \<Rightarrow> bool" where
  "js_le (Num a) (Num b) = (a \<le> b)"
| "js_le NaN _ = False"
| "js_le _ NaN = False"
| "js_le NInf _ = True"
| "js_le _ PInf = True"
| "js_le PInf _ = False"
| "js_le _ NInf = False"

fun js_gt :: "jsnum \<Rightarrow> jsnum \<Rightarrow> bool" where
  "js_gt (Num a) (Num b) = (b < a)"
| "js_gt NaN _ = False"
| "js_gt _ NaN = False"
| "js_gt NInf _ = False"
| "js_gt _ PInf = False"
| "js_gt PInf _ = True"
| "js_gt _ NInf = True"

text \<open>\<^verbatim>\<open>Math.min\<close> of two arguments: \<^verbatim>\<open>NaN\<close> if either is, the smaller one otherwise.\<close>

fun Math_min :: "jsnum \<Rightarrow> jsnum \<Rightarrow> jsnum" where
  "Math_min (Num a) (Num b) = Num (min a b)"
| "Math_min NaN _ = NaN"
| "Math_min _ NaN = NaN"
| "Math_min NInf _ = NInf"
| "Math_min _ NInf = NInf"
| "Math_min PInf b = b"
| "Math_min a PInf = a"

text \<open>
  \<^verbatim>\<open>Math.pow\<close> with an exponent that is a payment count (a natural number):
  the exponent 0 gives 1 whatever the base.
\<close>

fun Math_pow :: "jsnum \<Rightarrow> nat \<Rightarrow> jsnum" where
  "Math_pow x 0 = Num 1"
| "Math_pow (Num a) n = Num (a ^ n)"
| "Math_pow NaN n = NaN"
| "Math_pow PInf n = PInf"
| "Math_pow NInf n = (if even n then PInf else NInf)"

definition isNum :: "jsnum \<Rightarrow> bool" where
  "isNum x = (case x of Num _ \<Rightarrow> True | _ \<Rightarrow> False)"

fun val :: "jsnum \<Rightarrow> real" where
  "val (Num a) = a"
| "val _ = 0"

section \<open>Data model\<close>

text \<open>
  \<^verbatim>\<open>ScenarioState\<close>: the form's values. The numeric inputs are finite numbers; the two
  year counts come from drop-down lists of whole years. The source's field \<^verbatim>\<open>term\<close>
  is \<open>term_years\<close> here.
\<close>

record ScenarioState =
  purchasePrice :: real
  downPayment :: real
  downPaymentType :: string
  interestRate :: real
  amortizationPeriod :: nat
  term_years :: nat
  paymentFrequency :: string
  extraPayment :: real
  paymentIncrease :: real
  annualPrepayment :: real

record AmortizationItem =
  year :: nat
  principalPaid :: jsnum
  interestPaid :: jsnum
  extraPayments :: jsnum
  endingBalance :: jsnum

record MortgageResult =
  monthlyPayment :: jsnum
  totalMortgage :: jsnum
  totalInterestTerm :: jsnum
  totalInterestLifetime :: jsnum
  balanceAtEndOfTerm :: jsnum
  effectiveAmortization :: jsnum
  amortizationSchedule :: "AmortizationItem list"

text \<open>\<^verbatim>\<open>PAYMENT_FREQUENCIES\<close>: value, label, payments per year.\<close>

definition PAYMENT_FREQUENCIES :: "(string \<times> string \<times> nat) list" where
  "PAYMENT_FREQUENCIES =
     [(''monthly'', ''Monthly'', 12),
      (''biweekly'', ''Bi-Weekly'', 26),
      (''accelerated_biweekly'', ''Accelerated Bi-Weekly'', 26),
      (''weekly'', ''Weekly'', 52),
      (''accelerated_weekly'', ''Accelerated Weekly'', 52)]"

section \<open>generateAmortizationSchedule\<close>

text \<open>
  The arguments of \<^verbatim>\<open>generateAmortizationSchedule\<close> that its loops read, with the two
  constants it derives from them before the loops (\<open>interestRatePerPayment\<close> and
  \<open>adjustedPayment\<close>).
\<close>

record sched_params =
  principal :: jsnum
  amortizationYears :: nat
  paymentsPerYear :: nat
  term_p :: nat
  extraPayment_p :: jsnum
  annualPrepayment_p :: jsnum
  interestRatePerPayment :: jsnum
  adjustedPayment :: jsnum

text \<open>
  The variables the loops assign. \<open>executed\<close> is a ghost variable, absent from the
  source: the body of the payment loop appends to it, past the \<^verbatim>\<open>break\<close>, the year
  and index of the payment it has just processed with the balance and the cumulative
  interest it leaves. Nothing reads it; the properties are stated with it.
\<close>

record sched_vars =
  balance :: jsnum
  totalInterestPaid :: jsnum
  yearlySchedule :: "AmortizationItem list"
  totalInterestPaidOverTerm :: jsnum
  balanceAtEndOfTerm_v :: jsnum
  lastPaymentNumber :: nat
  yearlyPrincipalPaid :: jsnum
  yearlyInterestPaid :: jsnum
  yearlyExtraPayments :: jsnum
  executed :: "(nat \<times> nat \<times> jsnum \<times> jsnum) list"

text \<open>The body of the payment loop after its \<^verbatim>\<open>break\<close> test: payment \<open>i\<close> of year \<open>y\<close>.\<close>

definition processPayment :: "sched_params \<Rightarrow> nat \<Rightarrow> nat \<Rightarrow> sched_vars \<Rightarrow> sched_vars" where
  "processPayment p y i st =
    (let interestForPayment = balance st * interestRatePerPayment p;
         principalForPayment0 = Math_min (adjustedPayment p - interestForPayment) (balance st);
         extraPrincipalPaid =
           (if js_gt (extraPayment_p p) (Num 0)
            then Math_min (extraPayment_p p) (balance st - principalForPayment0)
            else Num 0);
         principalForPayment =
           (if js_gt (extraPayment_p p) (Num 0)
            then principalForPayment0 + extraPrincipalPaid
            else principalForPayment0);
         yearlyExtraPayments' =
           (if js_gt (extraPayment_p p) (Num 0)
            then yearlyExtraPayments st + extraPrincipalPaid
            else yearlyExtraPayments st);
         balance' = balance st - principalForPayment;
         totalInterestPaid' = totalInterestPaid st + interestForPayment;
         atTermEnd = (y = term_p p \<and> i = paymentsPerYear p)
     in st\<lparr>balance := balance',
            yearlyExtraPayments := yearlyExtraPayments',
            yearlyPrincipalPaid := yearlyPrincipalPaid st + principalForPayment,
            yearlyInterestPaid := yearlyInterestPaid st + interestForPayment,
            totalInterestPaid := totalInterestPaid',
            balanceAtEndOfTerm_v := (if atTermEnd then balance' else balanceAtEndOfTerm_v st),
            totalInterestPaidOverTerm :=
              (if atTermEnd then totalInterestPaid' else totalInterestPaidOverTerm st),
            executed := executed st @ [(y, i, balance', totalInterestPaid')]\<rparr>)"

text \<open>
  \<^verbatim>\<open>for (let i = 1; i <= paymentsPerYear; i++)\<close>, from index \<open>i\<close> on. The counter
  \<open>lastPaymentNumber\<close> is incremented before the \<^verbatim>\<open>break\<close> test, as in the source.
\<close>

function paymentLoop :: "sched_params \<Rightarrow> nat \<Rightarrow> nat \<Rightarrow> sched_vars \<Rightarrow> sched_vars" where
  "paymentLoop p y i st =
    (if i \<le> paymentsPerYear p
     then (let st1 = st\<lparr>lastPaymentNumber := lastPaymentNumber st + 1\<rparr>
           in if js_le (balance st1) (Num 0) then st1
              else paymentLoop p y (i + 1) (processPayment p y i st1))
     else st)"
  by pat_completeness auto
termination
  by (relation "measure (\<lambda>(p, y, i, st). paymentsPerYear p + 1 - i)") auto

text \<open>The annual lump sum, applied after the payments of a year.\<close>

definition applyAnnualPrepayment :: "sched_params \<Rightarrow> sched_vars \<Rightarrow> sched_vars" where
  "applyAnnualPrepayment p st =
    (if js_gt (annualPrepayment_p p) (Num 0) \<and> js_gt (balance st) (Num 0)
     then (let annualPrepaymentAmount =
                 Math_min (principal p * (annualPrepayment_p p / Num 100)) (balance st)
           in st\<lparr>balance := balance st - annualPrepaymentAmount,
                  yearlyPrincipalPaid := yearlyPrincipalPaid st + annualPrepaymentAmount,
                  yearlyExtraPayments := yearlyExtraPayments st + annualPrepaymentAmount\<rparr>)
     else st)"

definition pushYear :: "nat \<Rightarrow> sched_vars \<Rightarrow> sched_vars" where
  "pushYear y st =
    st\<lparr>yearlySchedule := yearlySchedule st @
         [\<lparr>year = y,
           principalPaid = yearlyPrincipalPaid st,
           interestPaid = yearlyInterestPaid st,
           extraPayments = yearlyExtraPayments st,
           endingBalance = balance st\<rparr>]\<rparr>"

text \<open>One pass of the year loop, up to its final \<^verbatim>\<open>break\<close> test.\<close>

definition yearBody :: "sched_params \<Rightarrow> nat \<Rightarrow> sched_vars \<Rightarrow> sched_vars" where
  "yearBody p y st =
    pushYear y (applyAnnualPrepayment p (paymentLoop p y 1
      (st\<lparr>yearlyPrincipalPaid := Num 0,
          yearlyInterestPaid := Num 0,
          yearlyExtraPayments := Num 0\<rparr>)))"

text \<open>\<^verbatim>\<open>for (let year = 1; year <= amortizationYears; year++)\<close>, from year \<open>y\<close> on.\<close>

function yearLoop :: "sched_params \<Rightarrow> nat \<Rightarrow> sched_vars \<Rightarrow> sched_vars" where
  "yearLoop p y st =
    (if y \<le> amortizationYears p
     then (let st1 = yearBody p y st
           in if js_le (balance st1) (Num 0) then st1 else yearLoop p (y + 1) st1)
     else st)"
  by pat_completeness auto
termination
  by (relation "measure (\<lambda>(p, y, st). amortizationYears p + 1 - y)") auto

definition initialVars :: "jsnum \<Rightarrow> sched_vars" where
  "initialVars principal0 =
    \<lparr>balance = principal0,
     totalInterestPaid = Num 0,
     yearlySchedule = [],
     totalInterestPaidOverTerm = Num 0,
     balanceAtEndOfTerm_v = Num 0,
     lastPaymentNumber = 0,
     yearlyPrincipalPaid = Num 0,
     yearlyInterestPaid = Num 0,
     yearlyExtraPayments = Num 0,
     executed = []\<rparr>"

definition scheduleParams ::
  "jsnum \<Rightarrow> jsnum \<Rightarrow> nat \<Rightarrow> jsnum \<Rightarrow> nat \<Rightarrow> nat \<Rightarrow> jsnum \<Rightarrow> jsnum \<Rightarrow> jsnum \<Rightarrow> sched_params" where
  "scheduleParams principal0 annualInterestRate amortizationYears0 paymentAmount0
      paymentsPerYear0 term0 extraPayment0 paymentIncrease0 annualPrepayment0 =
    \<lparr>principal = principal0,
     amortizationYears = amortizationYears0,
     paymentsPerYear = paymentsPerYear0,
     term_p = term0,
     extraPayment_p = extraPayment0,
     annualPrepayment_p = annualPrepayment0,
     interestRatePerPayment = (annualInterestRate / Num 100) / Num (real paymentsPerYear0),
     adjustedPayment = paymentAmount0 * (Num 1 + paymentIncrease0 / Num 100)\<rparr>"

text \<open>The variables as the loops leave them.\<close>

definition runSchedule ::
  "jsnum \<Rightarrow> jsnum \<Rightarrow> nat \<Rightarrow> jsnum \<Rightarrow> nat \<Rightarrow> nat \<Rightarrow> jsnum \<Rightarrow> jsnum \<Rightarrow> jsnum \<Rightarrow> sched_vars" where
  "runSchedule principal0 annualInterestRate amortizationYears0 paymentAmount0
      paymentsPerYear0 term0 extraPayment0 paymentIncrease0 annualPrepayment0 =
    yearLoop (scheduleParams principal0 annualInterestRate amortizationYears0 paymentAmount0
                paymentsPerYear0 term0 extraPayment0 paymentIncrease0 annualPrepayment0)
      1 (initialVars principal0)"

text \<open>The object \<^verbatim>\<open>generateAmortizationSchedule\<close> returns.\<close>

record ScheduleResult =
  yearlySchedule_r :: "AmortizationItem list"
  totalInterestPaid_r :: jsnum
  totalInterestPaidOverTerm_r :: jsnum
  balanceAtEndOfTerm_r :: jsnum
  effectiveAmortizationYears :: jsnum

definition generateAmortizationSchedule ::
  "jsnum \<Rightarrow> jsnum \<Rightarrow> nat \<Rightarrow> jsnum \<Rightarrow> nat \<Rightarrow> nat \<Rightarrow> jsnum \<Rightarrow> jsnum \<Rightarrow> jsnum \<Rightarrow> ScheduleResult" where
  "generateAmortizationSchedule principal0 annualInterestRate amortizationYears0 paymentAmount0
      paymentsPerYear0 term0 extraPayment0 paymentIncrease0 annualPrepayment0 =
    (let st = runSchedule principal0 annualInterestRate amortizationYears0 paymentAmount0
                paymentsPerYear0 term0 extraPayment0 paymentIncrease0 annualPrepayment0
     in \<lparr>yearlySchedule_r = yearlySchedule st,
         totalInterestPaid_r = totalInterestPaid st,
         totalInterestPaidOverTerm_r = totalInterestPaidOverTerm st,
         balanceAtEndOfTerm_r = balanceAtEndOfTerm_v st,
         effectiveAmortizationYears =
           Num (real (lastPaymentNumber st)) / Num (real paymentsPerYear0)\<rparr>)"

section \<open>Double precision\<close>

text \<open>
  The arithmetic above is exact. What the source computes is its rounding: \<^verbatim>\<open>+\<close>, \<^verbatim>\<open>-\<close>,
  \<^verbatim>\<open>*\<close> and \<^verbatim>\<open>/\<close> on finite doubles return the double nearest to the exact result, a
  tie going to the even significand, and an infinity past the largest double (IEEE 754
  binary64, as ECMAScript prescribes). This section has that rounding, and the schedule
  generator with it, for the properties that turn on exactness. \<^verbatim>\<open>Math.pow\<close>, whose
  precision the language leaves to the implementation, has no counterpart here: the
  generator does not call it.
\<close>

definition roundTiesToEven :: "real \<Rightarrow> int" where
  "roundTiesToEven x =
    (let n = \<lfloor>x\<rfloor>; d = x - of_int n
     in if d < 1 / 2 then n else if 1 / 2 < d then n + 1 else if even n then n else n + 1)"

text \<open>
  The exponent \<open>e\<close> of the unit in the last place of a positive \<open>a\<close>: \<open>2\<^sup>5\<^sup>2 \<le> a / 2\<^sup>e < 2\<^sup>5\<^sup>3\<close>,
  and \<open>e = -1074\<close> for the subnormal numbers below that. A small \<open>a\<close> is doubled until it
  reaches \<open>2\<^sup>5\<^sup>2\<close>, 32 or 8 doublings at a time while that many are due; a large one is
  halved.
\<close>

function scaleUp :: "real \<Rightarrow> int \<Rightarrow> int" where
  "scaleUp a e =
    (if a < 2 ^ 21 \<and> - 1042 \<le> e then scaleUp (a * 2 ^ 32) (e - 32)
     else if a < 2 ^ 45 \<and> - 1066 \<le> e then scaleUp (a * 2 ^ 8) (e - 8)
     else if a < 2 ^ 52 \<and> - 1074 < e then scaleUp (a * 2) (e - 1)
     else e)"
  by pat_completeness auto
termination
  by (relation "measure (\<lambda>(a, e). nat (e + 1074))") auto

function scaleDown :: "real \<Rightarrow> int \<Rightarrow> int" where
  "scaleDown a e = (if 2 ^ 53 \<le> a then scaleDown (a / 2) (e + 1) else e)"
  by pat_completeness auto
termination
proof (relation "measure (\<lambda>(a, e). nat \<lfloor>a\<rfloor>)")
  show "wf (measure (\<lambda>(a, e). nat \<lfloor>a\<rfloor>))" by simp
next
  fix a :: real and e :: int
  assume a: "2 ^ 53 \<le> a"
  then have "a / 2 \<le> a - 1" by simp
  then have "\<lfloor>a / 2\<rfloor> \<le> \<lfloor>a - 1\<rfloor>" by (rule floor_mono)
  moreover have "0 < \<lfloor>a\<rfloor>" using a by (simp add: floor_less_iff not_less[symmetric] less_floor_iff)
  ultimately show "((a / 2, e + 1), (a, e)) \<in> measure (\<lambda>(a, e). nat \<lfloor>a\<rfloor>)" by simp
qed

text \<open>The double nearest to a real number.\<close>

definition binary64 :: "real \<Rightarrow> jsnum" where
  "binary64 x =
    (if x = 0 then Num 0
     else (let a = \<bar>x\<bar>;
               e = (if a < 2 ^ 52 then scaleUp a 0 else scaleDown a 0);
               m = roundTiesToEven (if 0 \<le> e then a / 2 ^ nat e else a * 2 ^ nat (- e));
               r = (if 0 \<le> e then of_int m * 2 ^ nat e else of_int m / 2 ^ nat (- e))
           in if 2 ^ 1024 \<le> r then (if 0 < x then PInf else NInf)
              else Num (if 0 < x then r else - r)))"

fun fround :: "jsnum \<Rightarrow> jsnum" where
  "fround (Num a) = binary64 a"
| "fround x = x"

definition fadd :: "jsnum \<Rightarrow> jsnum \<Rightarrow> jsnum" where
  "fadd x y = fround (x + y)"

definition fsub :: "jsnum \<Rightarrow> jsnum \<Rightarrow> jsnum" where
  "fsub x y = fround (x - y)"

definition fmul :: "jsnum \<Rightarrow> jsnum \<Rightarrow> jsnum" where
  "fmul x y = fround (x * y)"

definition fdiv :: "jsnum \<Rightarrow> jsnum \<Rightarrow> jsnum" where
  "fdiv x y = fround (x / y)"

text \<open>
  \<^verbatim>\<open>generateAmortizationSchedule\<close> in double precision: the definitions of the section
  before, each operation rounded. The ghost variable is left alone.
\<close>

definition processPayment_f64 :: "sched_params \<Rightarrow> nat \<Rightarrow> nat \<Rightarrow> sched_vars \<Rightarrow> sched_vars" where
  "processPayment_f64 p y i st =
    (let interestForPayment = fmul (balance st) (interestRatePerPayment p);
         principalForPayment0 = Math_min (fsub (adjustedPayment p) interestForPayment) (balance st);
         extraPrincipalPaid =
           (if js_gt (extraPayment_p p) (Num 0)
            then Math_min (extraPayment_p p) (fsub (balance st) principalForPayment0)
            else Num 0);
         principalForPayment =
           (if js_gt (extraPayment_p p) (Num 0)
            then fadd principalForPayment0 extraPrincipalPaid
            else principalForPayment0);
         yearlyExtraPayments' =
           (if js_gt (extraPayment_p p) (Num 0)
            then fadd (yearlyExtraPayments st) extraPrincipalPaid
            else yearlyExtraPayments st);
         balance' = fsub (balance st) principalForPayment;
         totalInterestPaid' = fadd (totalInterestPaid st) interestForPayment;
         atTermEnd = (y = term_p p \<and> i = paymentsPerYear p)
     in st\<lparr>balance := balance',
            yearlyExtraPayments := yearlyExtraPayments',
            yearlyPrincipalPaid := fadd (yearlyPrincipalPaid st) principalForPayment,
            yearlyInterestPaid := fadd (yearlyInterestPaid st) interestForPayment,
            totalInterestPaid := totalInterestPaid',
            balanceAtEndOfTerm_v := (if atTermEnd then balance' else balanceAtEndOfTerm_v st),
            totalInterestPaidOverTerm :=
              (if atTermEnd then totalInterestPaid' else totalInterestPaidOverTerm st)\<rparr>)"

function paymentLoop_f64 :: "sched_params \<Rightarrow> nat \<Rightarrow> nat \<Rightarrow> sched_vars \<Rightarrow> sched_vars" where
  "paymentLoop_f64 p y i st =
    (if i \<le> paymentsPerYear p
     then (let st1 = st\<lparr>lastPaymentNumber := lastPaymentNumber st + 1\<rparr>
           in if js_le (balance st1) (Num 0) then st1
              else paymentLoop_f64 p y (i + 1) (processPayment_f64 p y i st1))
     else st)"
  by pat_completeness auto
termination
  by (relation "measure (\<lambda>(p, y, i, st). paymentsPerYear p + 1 - i)") auto

definition applyAnnualPrepayment_f64 :: "sched_params \<Rightarrow> sched_vars \<Rightarrow> sched_vars" where
  "applyAnnualPrepayment_f64 p st =
    (if js_gt (annualPrepayment_p p) (Num 0) \<and> js_gt (balance st) (Num 0)
     then (let annualPrepaymentAmount =
                 Math_min (fmul (principal p) (fdiv (annualPrepayment_p p) (Num 100))) (balance st)
           in st\<lparr>balance := fsub (balance st) annualPrepaymentAmount,
                  yearlyPrincipalPaid := fadd (yearlyPrincipalPaid st) annualPrepaymentAmount,
                  yearlyExtraPayments := fadd (yearlyExtraPayments st) annualPrepaymentAmount\<rparr>)
     else st)"

definition yearBody_f64 :: "sched_params \<Rightarrow> nat \<Rightarrow> sched_vars \<Rightarrow> sched_vars" where
  "yearBody_f64 p y st =
    pushYear y (applyAnnualPrepayment_f64 p (paymentLoop_f64 p y 1
      (st\<lparr>yearlyPrincipalPaid := Num 0,
          yearlyInterestPaid := Num 0,
          yearlyExtraPayments := Num 0\<rparr>)))"

function yearLoop_f64 :: "sched_params \<Rightarrow> nat \<Rightarrow> sched_vars \<Rightarrow> sched_vars" where
  "yearLoop_f64 p y st =
    (if y \<le> amortizationYears p
     then (let st1 = yearBody_f64 p y st
           in if js_le (balance st1) (Num 0) then st1 else yearLoop_f64 p (y + 1) st1)
     else st)"
  by pat_completeness auto
termination
  by (relation "measure (\<lambda>(p, y, st). amortizationYears p + 1 - y)") auto



section \<open>calculateMortgage\<close>

definition mortgageAmount :: "ScenarioState \<Rightarrow> jsnum" where
  "mortgageAmount s =
    (let downPaymentAmount =
           (if downPaymentType s = ''amount'' then Num (downPayment s)
            else Num (purchasePrice s) * (Num (downPayment s) / Num 100))
     in Num (purchasePrice s) - downPaymentAmount)"

text \<open>
  \<^verbatim>\<open>PAYMENT_FREQUENCIES.find(f => f.value === scenario.paymentFrequency) ?? PAYMENT_FREQUENCIES[0]\<close>
\<close>

definition paymentsPerYearOf :: "ScenarioState \<Rightarrow> nat" where
  "paymentsPerYearOf s =
    (case find (\<lambda>f. fst f = paymentFrequency s) PAYMENT_FREQUENCIES of
       Some f \<Rightarrow> snd (snd f)
     | None \<Rightarrow> snd (snd (PAYMENT_FREQUENCIES ! 0)))"

text \<open>The value of the local variable \<^verbatim>\<open>paymentAmount\<close> when the schedule is generated.\<close>

definition paymentAmount :: "ScenarioState \<Rightarrow> jsnum" where
  "paymentAmount s =
    (let annualInterestRate = Num (interestRate s) / Num 100;
         interestRatePerPayment0 = annualInterestRate / Num (real (paymentsPerYearOf s));
         totalPayments = amortizationPeriod s * paymentsPerYearOf s;
         paymentAmount0 =
           (if interestRate s = 0 then mortgageAmount s / Num (real totalPayments)
            else mortgageAmount s *
                   (interestRatePerPayment0 * Math_pow (Num 1 + interestRatePerPayment0) totalPayments) /
                   (Math_pow (Num 1 + interestRatePerPayment0) totalPayments - Num 1))
     in if paymentFrequency s = ''accelerated_biweekly''
        then (let monthlyEquivalent =
                    mortgageAmount s *
                      (annualInterestRate / Num 12 *
                         Math_pow (Num 1 + annualInterestRate / Num 12) (amortizationPeriod s * 12)) /
                      (Math_pow (Num 1 + annualInterestRate / Num 12) (amortizationPeriod s * 12) - Num 1)
              in monthlyEquivalent / Num 2)
        else if paymentFrequency s = ''accelerated_weekly''
        then (let monthlyEquivalent =
                    mortgageAmount s *
                      (annualInterestRate / Num 12 *
                         Math_pow (Num 1 + annualInterestRate / Num 12) (amortizationPeriod s * 12)) /
                      (Math_pow (Num 1 + annualInterestRate / Num 12) (amortizationPeriod s * 12) - Num 1)
              in monthlyEquivalent / Num 4)
        else paymentAmount0)"

definition scheduleResult :: "ScenarioState \<Rightarrow> ScheduleResult" where
  "scheduleResult s =
    generateAmortizationSchedule (mortgageAmount s) (Num (interestRate s)) (amortizationPeriod s)
      (paymentAmount s) (paymentsPerYearOf s) (term_years s) (Num (extraPayment s))
      (Num (paymentIncrease s)) (Num (annualPrepayment s))"

definition calculateMortgage :: "ScenarioState \<Rightarrow> MortgageResult" where
  "calculateMortgage s =
    \<lparr>monthlyPayment =
       (if paymentFrequency s = ''monthly'' then paymentAmount s
        else paymentAmount s * Num (real (paymentsPerYearOf s)) / Num 12),
     totalMortgage = mortgageAmount s,
     totalInterestTerm = totalInterestPaidOverTerm_r (scheduleResult s),
     totalInterestLifetime = totalInterestPaid_r (scheduleResult s),
     balanceAtEndOfTerm = balanceAtEndOfTerm_r (scheduleResult s),
     effectiveAmortization = effectiveAmortizationYears (scheduleResult s),
     amortizationSchedule = yearlySchedule_r (scheduleResult s)\<rparr>"

section \<open>calculateComparison\<close>

record Differences =
  monthlyPayment_d :: jsnum
  totalInterestTerm_d :: jsnum
  totalInterestLifetime_d :: jsnum
  balanceAtEndOfTerm_d :: jsnum
  timeShaved :: jsnum

text \<open>The \<open>differences\<close> object \<^verbatim>\<open>calculateComparison\<close> builds from the two results.\<close>

definition differences :: "MortgageResult \<Rightarrow> MortgageResult \<Rightarrow> Differences" where
  "differences resultA resultB =
    \<lparr>monthlyPayment_d = monthlyPayment resultB - monthlyPayment resultA,
     totalInterestTerm_d = totalInterestTerm resultB - totalInterestTerm resultA,
     totalInterestLifetime_d = totalInterestLifetime resultB - totalInterestLifetime resultA,
     balanceAtEndOfTerm_d = balanceAtEndOfTerm resultB - balanceAtEndOfTerm resultA,
     timeShaved = effectiveAmortization resultA - effectiveAmortization resultB\<rparr>"

record Comparison =
  scenarioA :: MortgageResult
  scenarioB :: MortgageResult
  differences_c :: Differences

definition calculateComparison :: "ScenarioState \<Rightarrow> ScenarioState \<Rightarrow> Comparison" where
  "calculateComparison sA sB =
    (let resultA = calculateMortgage sA;
         resultB = calculateMortgage sB
     in \<lparr>scenarioA = resultA, scenarioB = resultB,
         differences_c = differences resultA resultB\<rparr>)"

section \<open>Specification vocabulary\<close>

text \<open>The loop variables at the end of the schedule \<open>calculateMortgage\<close> generates.\<close>

definition scenarioRun :: "ScenarioState \<Rightarrow> sched_vars" where
  "scenarioRun s =
    runSchedule (mortgageAmount s) (Num (interestRate s)) (amortizationPeriod s)
      (paymentAmount s) (paymentsPerYearOf s) (term_years s) (Num (extraPayment s))
      (Num (paymentIncrease s)) (Num (annualPrepayment s))"

text \<open>
  A schedule reconciles from a starting balance when every year's ending balance is the
  balance before it minus the principal paid that year, and nothing else.
\<close>

fun balancesReconcile :: "jsnum \<Rightarrow> AmortizationItem list \<Rightarrow> bool" where
  "balancesReconcile prev [] = True"
| "balancesReconcile prev (it # its) =
     (endingBalance it = prev - principalPaid it \<and> balancesReconcile (endingBalance it) its)"

definition lastBalance :: "jsnum \<Rightarrow> AmortizationItem list \<Rightarrow> jsnum" where
  "lastBalance prev xs = (if xs = [] then prev else endingBalance (last xs))"

text \<open>
  The invariant of the term-end snapshot, before payment \<open>i0\<close> of year \<open>y0\<close>: every
  processed payment lies before that position; the two snapshot variables hold what the
  last payment of the term year left, if it was processed, and their initial 0 if not.
\<close>

definition snapshotInv :: "sched_params \<Rightarrow> nat \<Rightarrow> nat \<Rightarrow> sched_vars \<Rightarrow> bool" where
  "snapshotInv p y0 i0 s =
    ((\<forall>e \<in> set (executed s). fst e < y0 \<or> (fst e = y0 \<and> fst (snd e) < i0)) \<and>
     (\<forall>b t. (term_p p, paymentsPerYear p, b, t) \<in> set (executed s) \<longrightarrow>
        balanceAtEndOfTerm_v s = b \<and> totalInterestPaidOverTerm s = t) \<and>
     ((\<forall>b t. (term_p p, paymentsPerYear p, b, t) \<notin> set (executed s)) \<longrightarrow>
        balanceAtEndOfTerm_v s = Num 0 \<and> totalInterestPaidOverTerm s = Num 0))"

text \<open>
  The quantities of the payment formula as the specification names them: the financed
  principal, the periodic rate and the number of payments, as real numbers.
\<close>

definition principalOf :: "ScenarioState \<Rightarrow> real" where
  "principalOf s =
    purchasePrice s -
      (if downPaymentType s = ''amount'' then downPayment s
       else purchasePrice s * (downPayment s / 100))"

definition periodicRate :: "ScenarioState \<Rightarrow> real" where
  "periodicRate s = interestRate s / 100 / real (paymentsPerYearOf s)"

definition paymentCount :: "ScenarioState \<Rightarrow> nat" where
  "paymentCount s = amortizationPeriod s * paymentsPerYearOf s"

text \<open>The annuity formula, \<open>P \<times> r(1+r)\<^sup>n / ((1+r)\<^sup>n - 1)\<close>, over the reals.\<close>

definition annuity :: "real \<Rightarrow> real \<Rightarrow> nat \<Rightarrow> real" where
  "annuity P r n = P * (r * (1 + r) ^ n) / ((1 + r) ^ n - 1)"

text \<open>The same formula evaluated in the arithmetic of the source language.\<close>

definition annuity_js :: "jsnum \<Rightarrow> jsnum \<Rightarrow> nat \<Rightarrow> jsnum" where
  "annuity_js P r n = P * (r * Math_pow (Num 1 + r) n) / (Math_pow (Num 1 + r) n - Num 1)"

text \<open>
  The value of the local variable \<^verbatim>\<open>monthlyEquivalent\<close> in the two accelerated branches
  of \<^verbatim>\<open>calculateMortgage\<close>: the formula at the annual rate over 12, with twelve payments
  a year, evaluated whatever the rate.
\<close>

definition monthlyEquivalent :: "ScenarioState \<Rightarrow> jsnum" where
  "monthlyEquivalent s =
    annuity_js (mortgageAmount s) (Num (interestRate s) / Num 100 / Num 12)
      (amortizationPeriod s * 12)"

text \<open>
  The standard monthly payment as the specification defines a payment amount: the annuity
  formula at the annual rate over 12, with \<open>n = amortizationPeriod \<times> 12\<close> payments, and
  \<open>principal / n\<close> when the rate is 0.
\<close>

definition standardMonthlyPayment :: "ScenarioState \<Rightarrow> jsnum" where
  "standardMonthlyPayment s =
    (if interestRate s = 0 then mortgageAmount s / Num (real (amortizationPeriod s * 12))
     else annuity_js (mortgageAmount s) (Num (interestRate s) / Num 100 / Num 12)
            (amortizationPeriod s * 12))"

text \<open>
  What one processed payment, and one annual lump sum, do to a balance that is a number
  (adjusted payment \<open>A\<close>, periodic rate \<open>r\<close>, extra payment \<open>e\<close>; original principal \<open>P\<close>,
  annual prepayment percentage \<open>a\<close>).
\<close>

definition payStep :: "real \<Rightarrow> real \<Rightarrow> real \<Rightarrow> real \<Rightarrow> real" where
  "payStep A r e b =
    (let principalForPayment0 = min (A - b * r) b;
         extraPrincipalPaid = (if 0 < e then min e (b - principalForPayment0) else 0)
     in b - (principalForPayment0 + extraPrincipalPaid))"

definition prepayStep :: "real \<Rightarrow> real \<Rightarrow> real \<Rightarrow> real" where
  "prepayStep P a b = (if 0 < a \<and> 0 < b then b - min (P * (a / 100)) b else b)"

text \<open>The parameters of the schedule \<open>calculateMortgage\<close> generates for a scenario.\<close>

definition scenarioParams :: "ScenarioState \<Rightarrow> sched_params" where
  "scenarioParams s =
    scheduleParams (mortgageAmount s) (Num (interestRate s)) (amortizationPeriod s)
      (paymentAmount s) (paymentsPerYearOf s) (term_years s) (Num (extraPayment s))
      (Num (paymentIncrease s)) (Num (annualPrepayment s))"

text \<open>The invariant of an interest-free schedule.\<close>

definition zeroInterest :: "sched_vars \<Rightarrow> bool" where
  "zeroInterest s = (isNum (balance s) \<and> totalInterestPaid s = Num 0)"

text \<open>
  Two runs compared, all of whose numbers are finite: the second has no more balance, no
  more interest paid and no higher payment counter than the first.
\<close>

definition dominates :: "sched_vars \<Rightarrow> sched_vars \<Rightarrow> bool" where
  "dominates s1 s2 =
    (isNum (balance s1) \<and> isNum (balance s2) \<and>
     isNum (totalInterestPaid s1) \<and> isNum (totalInterestPaid s2) \<and>
     val (balance s2) \<le> val (balance s1) \<and>
     val (totalInterestPaid s2) \<le> val (totalInterestPaid s1) \<and>
     lastPaymentNumber s2 \<le> lastPaymentNumber s1)"

text \<open>
  A run from \<open>s\<close> to \<open>s'\<close>: the balance is a non-negative number, the interest paid and the
  payment counter have not decreased.
\<close>

definition advances :: "sched_vars \<Rightarrow> sched_vars \<Rightarrow> bool" where
  "advances s s' =
    (isNum (balance s') \<and> 0 \<le> val (balance s') \<and> isNum (totalInterestPaid s') \<and>
     val (totalInterestPaid s) \<le> val (totalInterestPaid s') \<and>
     lastPaymentNumber s \<le> lastPaymentNumber s')"

text \<open>Two runs that agree on the balance, the interest paid and the payment counter.\<close>

definition sameCore :: "sched_vars \<Rightarrow> sched_vars \<Rightarrow> bool" where
  "sameCore s1 s2 =
    (balance s1 = balance s2 \<and> totalInterestPaid s1 = totalInterestPaid s2 \<and>
     lastPaymentNumber s1 = lastPaymentNumber s2)"

text \<open>The principal paid over a whole schedule.\<close>

fun sumPrincipalPaid :: "AmortizationItem list \<Rightarrow> jsnum" where
  "sumPrincipalPaid [] = Num 0"
| "sumPrincipalPaid (it # its) = principalPaid it + sumPrincipalPaid its"

text \<open>
  The invariants of a schedule whose adjusted payment is \<open>NaN\<close>: within a year, before
  payment \<open>j\<close>, and between years, before year \<open>y\<close>. Its balance is never \<open>\<le> 0\<close>, so it
  never leaves a loop early.
\<close>

definition nanYear :: "sched_vars \<Rightarrow> nat \<Rightarrow> sched_vars \<Rightarrow> bool" where
  "nanYear st j s =
    (yearlySchedule s = yearlySchedule st \<and>
     (j = 1 \<and> \<not> js_le (balance s) (Num 0) \<or>
      1 < j \<and> balance s = NaN \<and> yearlyPrincipalPaid s = NaN \<and>
        (2 < j \<longrightarrow> totalInterestPaid s = NaN)))"

definition nanRun :: "sched_params \<Rightarrow> nat \<Rightarrow> sched_vars \<Rightarrow> bool" where
  "nanRun p y s =
    (\<not> js_le (balance s) (Num 0) \<and> y \<le> amortizationYears p + 1 \<and>
     length (yearlySchedule s) + 1 = y \<and>
     (\<forall>it \<in> set (yearlySchedule s). principalPaid it = NaN) \<and>
     (1 < y \<longrightarrow> totalInterestPaid s = NaN))"

text \<open>
  The plain loan as a yardstick: its payment (the annuity payment at the periodic rate,
  \<open>P / n\<close> when the rate is 0) and the balance it leaves after \<open>k\<close> of its \<open>n\<close> payments,
  which is 0 after the last one.
\<close>

definition basePayment :: "real \<Rightarrow> real \<Rightarrow> nat \<Rightarrow> real" where
  "basePayment P r n = (if r = 0 then P / real n else annuity P r n)"

definition refBalance :: "real \<Rightarrow> real \<Rightarrow> nat \<Rightarrow> nat \<Rightarrow> real" where
  "refBalance P r n k =
    (if r = 0 then P - real k * (P / real n)
     else P * ((1 + r) ^ n - (1 + r) ^ k) / ((1 + r) ^ n - 1))"

text \<open>A balance that is a number between 0 and the yardstick's after \<open>k\<close> payments.\<close>

definition withinRef :: "real \<Rightarrow> real \<Rightarrow> nat \<Rightarrow> nat \<Rightarrow> sched_vars \<Rightarrow> bool" where
  "withinRef P r n k s =
    (isNum (balance s) \<and> 0 \<le> val (balance s) \<and> val (balance s) \<le> refBalance P r n k)"




text \<open>
  The specification's ``within rounding'': two results are numbers and differ by at most
  one part in \<open>10\<^sup>9\<close> of the amount \<open>scale\<close> they are measured against (the financed
  principal, below): less than a twentieth of a cent on the form's loan of 400000.
\<close>

definition withinRounding :: "real \<Rightarrow> jsnum \<Rightarrow> jsnum \<Rightarrow> bool" where
  "withinRounding scale x y = (isNum x \<and> isNum y \<and> \<bar>val x - val y\<bar> * 10 ^ 9 \<le> \<bar>scale\<bar>)"







section \<open>Example scenarios\<close>

text \<open>
  An interest-free loan of 60000 over 5 years, paid monthly (1000 a month), with 5000
  extra on every payment: ten payments of 6000 clear it within the first year.
\<close>

definition earlyPayoff :: ScenarioState where
  "earlyPayoff =
    \<lparr>purchasePrice = 60000, downPayment = 0, downPaymentType = ''amount'', interestRate = 0,
     amortizationPeriod = 5, term_years = 1, paymentFrequency = ''monthly'',
     extraPayment = 5000, paymentIncrease = 0, annualPrepayment = 0\<rparr>"

text \<open>The same loan with 3000 extra: fifteen payments of 4000, so the term year is completed.\<close>

definition termReached :: ScenarioState where
  "termReached = earlyPayoff\<lparr>extraPayment := 3000\<rparr>"

text \<open>
  The form's defaults (500000 less 100000 down, 25 years, a 5-year term) with the rate
  set to 0 and accelerated bi-weekly payments.
\<close>

definition zeroRateAccelerated :: ScenarioState where
  "zeroRateAccelerated =
    \<lparr>purchasePrice = 500000, downPayment = 100000, downPaymentType = ''amount'', interestRate = 0,
     amortizationPeriod = 25, term_years = 5, paymentFrequency = ''accelerated_biweekly'',
     extraPayment = 0, paymentIncrease = 0, annualPrepayment = 0\<rparr>"

text \<open>The two scenarios the form starts with.\<close>

definition defaultScenarioA :: ScenarioState where
  "defaultScenarioA =
    \<lparr>purchasePrice = 500000, downPayment = 100000, downPaymentType = ''amount'',
     interestRate = 5.5, amortizationPeriod = 25, term_years = 5,
     paymentFrequency = ''monthly'', extraPayment = 0, paymentIncrease = 0,
     annualPrepayment = 0\<rparr>"

definition defaultScenarioB :: ScenarioState where
  "defaultScenarioB =
    \<lparr>purchasePrice = 500000, downPayment = 100000, downPaymentType = ''amount'',
     interestRate = 4.5, amortizationPeriod = 25, term_years = 5,
     paymentFrequency = ''accelerated_biweekly'', extraPayment = 200, paymentIncrease = 0,
     annualPrepayment = 0\<rparr>"

text \<open>The interest-free defaults paid bi-weekly, not accelerated.\<close>

definition zeroRateBiweekly :: ScenarioState where
  "zeroRateBiweekly = zeroRateAccelerated\<lparr>paymentFrequency := ''biweekly''\<rparr>"


section \<open>The loops, one step at a time\<close>

declare paymentLoop.simps [simp del] yearLoop.simps [simp del]

declare paymentLoop_f64.simps [simp del] yearLoop_f64.simps [simp del]

declare scaleUp.simps [simp del] scaleDown.simps [simp del]

lemma paymentsPerYearOf_cases:
  "paymentsPerYearOf s =
    (if paymentFrequency s = ''monthly'' then 12
     else if paymentFrequency s = ''biweekly'' then 26
     else if paymentFrequency s = ''accelerated_biweekly'' then 26
     else if paymentFrequency s = ''weekly'' then 52
     else if paymentFrequency s = ''accelerated_weekly'' then 52
     else 12)"
  by (simp add: paymentsPerYearOf_def PAYMENT_FREQUENCIES_def)

lemma js_sub_sub: "(s - a) - b = s - (a + b)" for s a b :: jsnum
  by (cases s; cases a; cases b; simp add: minus_jsnum_def)

lemma js_sub_zero [simp]: "s - Num 0 = s" for s :: jsnum
  by (cases s; simp add: minus_jsnum_def)

lemma js_add_zero [simp]: "s + Num 0 = s" "Num 0 + s = s" for s :: jsnum
  by (cases s; simp)+

lemma paymentLoop_rule:
  assumes "I i st"
    and "\<And>j s. I j s \<Longrightarrow> j \<le> paymentsPerYear p \<Longrightarrow> \<not> js_le (balance s) (Num 0) \<Longrightarrow>
           I (j + 1) (processPayment p y j (s\<lparr>lastPaymentNumber := lastPaymentNumber s + 1\<rparr>))"
    and "\<And>j s. I j s \<Longrightarrow> j \<le> paymentsPerYear p \<Longrightarrow> js_le (balance s) (Num 0) \<Longrightarrow>
           Q (s\<lparr>lastPaymentNumber := lastPaymentNumber s + 1\<rparr>)"
    and "\<And>j s. I j s \<Longrightarrow> paymentsPerYear p < j \<Longrightarrow> Q s"
  shows "Q (paymentLoop p y i st)"
  using assms
proof (induction p y i st rule: paymentLoop.induct)
  case (1 p y i st)
  note inv = "1.prems"(1) and step = "1.prems"(2) and brk = "1.prems"(3) and fin = "1.prems"(4)
  let ?st1 = "st\<lparr>lastPaymentNumber := lastPaymentNumber st + 1\<rparr>"
  show ?case
  proof (cases "i \<le> paymentsPerYear p")
    case False
    then have "paymentsPerYear p < i" by simp
    from fin[OF inv this] False show ?thesis by (simp add: paymentLoop.simps)
  next
    case True
    show ?thesis
    proof (cases "js_le (balance st) (Num 0)")
      case stop: True
      from brk[OF inv True stop] True stop show ?thesis
        by (subst paymentLoop.simps) (simp add: Let_def)
    next
      case go: False
      have "I (i + 1) (processPayment p y i ?st1)"
        by (rule step[OF inv True go])
      then have "Q (paymentLoop p y (i + 1) (processPayment p y i ?st1))"
        using "1.IH"[of ?st1] True go step brk fin by simp
      then show ?thesis using True go
        by (subst paymentLoop.simps) (simp add: Let_def)
    qed
  qed
qed

lemma yearLoop_rule:
  assumes "I y st"
    and "\<And>j s. I j s \<Longrightarrow> j \<le> amortizationYears p \<Longrightarrow>
           \<not> js_le (balance (yearBody p j s)) (Num 0) \<Longrightarrow> I (j + 1) (yearBody p j s)"
    and "\<And>j s. I j s \<Longrightarrow> j \<le> amortizationYears p \<Longrightarrow>
           js_le (balance (yearBody p j s)) (Num 0) \<Longrightarrow> Q (yearBody p j s)"
    and "\<And>j s. I j s \<Longrightarrow> amortizationYears p < j \<Longrightarrow> Q s"
  shows "Q (yearLoop p y st)"
  using assms
proof (induction p y st rule: yearLoop.induct)
  case (1 p y st)
  note inv = "1.prems"(1) and step = "1.prems"(2) and brk = "1.prems"(3) and fin = "1.prems"(4)
  show ?case
  proof (cases "y \<le> amortizationYears p")
    case False
    then have "amortizationYears p < y" by simp
    from fin[OF inv this] False show ?thesis by (simp add: yearLoop.simps)
  next
    case True
    show ?thesis
    proof (cases "js_le (balance (yearBody p y st)) (Num 0)")
      case stop: True
      from brk[OF inv True stop] True stop show ?thesis
        by (subst yearLoop.simps) (simp add: Let_def)
    next
      case go: False
      have "I (y + 1) (yearBody p y st)"
        by (rule step[OF inv True go])
      then have "Q (yearLoop p (y + 1) (yearBody p y st))"
        using "1.IH"[of "yearBody p y st"] True go step brk fin by simp
      then show ?thesis using True go
        by (subst yearLoop.simps) (simp add: Let_def)
    qed
  qed
qed

section \<open>Results in terms of the loop variables, and the example runs\<close>

lemma calculateMortgage_run:
  "calculateMortgage s =
    \<lparr>monthlyPayment =
       (if paymentFrequency s = ''monthly'' then paymentAmount s
        else paymentAmount s * Num (real (paymentsPerYearOf s)) / Num 12),
     totalMortgage = mortgageAmount s,
     totalInterestTerm = totalInterestPaidOverTerm (scenarioRun s),
     totalInterestLifetime = totalInterestPaid (scenarioRun s),
     balanceAtEndOfTerm = balanceAtEndOfTerm_v (scenarioRun s),
     effectiveAmortization =
       Num (real (lastPaymentNumber (scenarioRun s))) / Num (real (paymentsPerYearOf s)),
     amortizationSchedule = yearlySchedule (scenarioRun s)\<rparr>"
  by (simp add: calculateMortgage_def scheduleResult_def generateAmortizationSchedule_def
      scenarioRun_def Let_def)

lemmas schedule_eval =
  scenarioRun_def runSchedule_def scheduleParams_def initialVars_def paymentAmount_def
  mortgageAmount_def paymentsPerYearOf_cases yearLoop.simps paymentLoop.simps yearBody_def
  processPayment_def applyAnnualPrepayment_def pushYear_def Let_def minus_jsnum_def

lemma earlyPayoff_run:
  "scenarioRun earlyPayoff =
    \<lparr>balance = Num 0, totalInterestPaid = Num 0,
     yearlySchedule =
       [\<lparr>year = 1, principalPaid = Num 60000, interestPaid = Num 0,
         extraPayments = Num 50000, endingBalance = Num 0\<rparr>],
     totalInterestPaidOverTerm = Num 0, balanceAtEndOfTerm_v = Num 0,
     lastPaymentNumber = 11, yearlyPrincipalPaid = Num 60000, yearlyInterestPaid = Num 0,
     yearlyExtraPayments = Num 50000,
     executed =
       [(1, 1, Num 54000, Num 0), (1, 2, Num 48000, Num 0), (1, 3, Num 42000, Num 0),
        (1, 4, Num 36000, Num 0), (1, 5, Num 30000, Num 0), (1, 6, Num 24000, Num 0),
        (1, 7, Num 18000, Num 0), (1, 8, Num 12000, Num 0), (1, 9, Num 6000, Num 0),
        (1, 10, Num 0, Num 0)]\<rparr>"
  by (simp add: earlyPayoff_def schedule_eval)

lemma termReached_run:
  "scenarioRun termReached =
    \<lparr>balance = Num 0, totalInterestPaid = Num 0,
     yearlySchedule =
       [\<lparr>year = 1, principalPaid = Num 48000, interestPaid = Num 0,
         extraPayments = Num 36000, endingBalance = Num 12000\<rparr>,
        \<lparr>year = 2, principalPaid = Num 12000, interestPaid = Num 0,
         extraPayments = Num 9000, endingBalance = Num 0\<rparr>],
     totalInterestPaidOverTerm = Num 0, balanceAtEndOfTerm_v = Num 12000,
     lastPaymentNumber = 16, yearlyPrincipalPaid = Num 12000, yearlyInterestPaid = Num 0,
     yearlyExtraPayments = Num 9000,
     executed =
       [(1, 1, Num 56000, Num 0), (1, 2, Num 52000, Num 0), (1, 3, Num 48000, Num 0),
        (1, 4, Num 44000, Num 0), (1, 5, Num 40000, Num 0), (1, 6, Num 36000, Num 0),
        (1, 7, Num 32000, Num 0), (1, 8, Num 28000, Num 0), (1, 9, Num 24000, Num 0),
        (1, 10, Num 20000, Num 0), (1, 11, Num 16000, Num 0), (1, 12, Num 12000, Num 0),
        (2, 1, Num 8000, Num 0), (2, 2, Num 4000, Num 0), (2, 3, Num 0, Num 0)]\<rparr>"
  by (simp add: termReached_def earlyPayoff_def schedule_eval)

section \<open>The payment amount\<close>

lemma compound_step:
  fixes x :: real
  assumes "0 \<le> x" "0 < n"
  shows "(1 + x / real n) ^ n \<le> (1 + x / real (Suc n)) ^ Suc n"
proof -
  define a where "a = 1 + x / real n"
  define b where "b = 1 + x / real (Suc n)"
  have a: "0 < a" and b: "0 < b" using assms by (simp_all add: a_def b_def add_pos_nonneg)
  have "-1 \<le> b / a - 1" using a b by simp
  from Bernoulli_inequality[OF this, of "Suc n"]
  have "1 + real (Suc n) * (b / a - 1) \<le> (b / a) ^ Suc n" by simp
  moreover have "1 + real (Suc n) * (b / a - 1) = 1 / a"
  proof -
    have N: "0 < real n" "real (Suc n) = real n + 1" using assms by simp_all
    have "(real n + 1) * ((1 + x / (real n + 1)) - (1 + x / real n)) = - (x / real n)"
      using N(1) by (simp add: divide_simps) (simp add: algebra_simps)
    then have "real (Suc n) * (b - a) = - (x / real n)"
      by (simp add: a_def b_def N(2) del: of_nat_Suc)
    then have "real (Suc n) * (b / a - 1) = - (x / real n) / a"
      using a by (simp add: field_simps)
    moreover have "1 + - (x / real n) / a = 1 / a"
    proof -
      have "1 + - (x / real n) / a = (a - x / real n) / a"
        using a by (simp add: diff_divide_distrib)
      also have "a - x / real n = 1" by (simp add: a_def)
      finally show ?thesis .
    qed
    ultimately show ?thesis by simp
  qed
  ultimately have "1 / a \<le> (b / a) ^ Suc n" by simp
  then have "1 / a \<le> b ^ Suc n / a ^ Suc n" by (simp add: power_divide)
  then have "a ^ Suc n / a \<le> b ^ Suc n"
    using a by (simp add: field_simps)
  then have "a ^ n \<le> b ^ Suc n" using a by simp
  then show ?thesis unfolding a_def b_def .
qed

lemma compound_mono:
  fixes x :: real
  assumes "0 \<le> x" "0 < m" "m \<le> k"
  shows "(1 + x / real m) ^ m \<le> (1 + x / real k) ^ k"
  using assms(3,2)
proof (induction k rule: dec_induct)
  case base
  show ?case by simp
next
  case (step k)
  have "(1 + x / real k) ^ k \<le> (1 + x / real (Suc k)) ^ Suc k"
    using compound_step[OF assms(1), of k] step by simp
  with step show ?case by simp
qed

lemma compound_gt_one:
  fixes a :: real
  assumes "0 < a" "0 < k" "0 < Y"
  shows "1 < (1 + a / real k) ^ (Y * k)"
proof -
  have "1 < 1 + a / real k" using assms by simp
  moreover have "0 < Y * k" using assms by simp
  ultimately show ?thesis by (rule one_less_power)
qed

lemma annuity_accelerated_exceeds:
  fixes P a d :: real
  assumes "0 < P" "0 < a" "0 < Y" "12 \<le> k" "0 < d" "12 * d < real k"
  shows "annuity P (a / real k) (Y * k) < annuity P (a / 12) (Y * 12) / d"
proof -
  define q1 where "q1 = (1 + a / 12) ^ (Y * 12)"
  define q2 where "q2 = (1 + a / real k) ^ (Y * k)"
  have k: "0 < k" using assms by simp
  have q1: "1 < q1" unfolding q1_def using compound_gt_one[of a 12 Y] assms by simp
  have q2: "1 < q2" unfolding q2_def using compound_gt_one[of a k Y] assms k by simp
  have "(1 + a / real (12::nat)) ^ 12 \<le> (1 + a / real k) ^ k"
    by (rule compound_mono) (use assms in simp_all)
  then have "((1 + a / 12) ^ 12) ^ Y \<le> ((1 + a / real k) ^ k) ^ Y"
    using assms by (intro power_mono) simp_all
  then have le: "q1 \<le> q2"
    by (simp add: q1_def q2_def power_mult [symmetric] mult.commute)
  define g1 where "g1 = q1 / (q1 - 1)"
  define g2 where "g2 = q2 / (q2 - 1)"
  have f: "g2 \<le> g1"
    unfolding g1_def g2_def using q1 q2 le by (simp add: field_simps)
  have f2: "0 < g2" unfolding g2_def using q2 by simp
  have Pa: "0 < P * a" using assms by simp
  have pos: "0 < P * a * g2" using Pa f2 by (rule mult_pos_pos)
  have "annuity P (a / real k) (Y * k) = P * a * g2 / real k"
    by (simp add: annuity_def q2_def g2_def mult_ac)
  also have "\<dots> < P * a * g2 / (12 * d)"
    using pos assms by (intro divide_strict_left_mono) simp_all
  also have "\<dots> \<le> P * a * g1 / (12 * d)"
  proof -
    have "P * a * g2 \<le> P * a * g1"
      using f Pa by (simp add: mult_left_mono)
    then show ?thesis using assms by (simp add: divide_right_mono)
  qed
  also have "\<dots> = annuity P (a / 12) (Y * 12) / d"
    by (simp add: annuity_def q1_def g1_def mult_ac)
  finally show ?thesis .
qed


lemma Math_pow_Num [simp]: "Math_pow (Num a) n = Num (a ^ n)"
  by (cases n) simp_all

lemma isNum_simps [simp]: "isNum (Num a)" "\<not> isNum NaN" "\<not> isNum PInf" "\<not> isNum NInf"
  by (simp_all add: isNum_def)

lemma isNum_iff: "isNum x \<longleftrightarrow> (\<exists>a. x = Num a)"
  by (cases x) simp_all

lemma mortgageAmount_Num: "mortgageAmount s = Num (principalOf s)"
  by (simp add: mortgageAmount_def principalOf_def minus_jsnum_def)

lemma paymentsPerYearOf_pos [simp]: "0 < paymentsPerYearOf s"
  by (simp add: paymentsPerYearOf_cases)

lemma interestRatePerPayment_Num:
  "Num (interestRate s) / Num 100 / Num (real (paymentsPerYearOf s)) = Num (periodicRate s)"
  by (simp add: periodicRate_def)

lemma annuity_js_Num:
  "(1 + r) ^ n \<noteq> 1 \<Longrightarrow> annuity_js (Num P) (Num r) n = Num (annuity P r n)"
  by (simp add: annuity_js_def annuity_def minus_jsnum_def)

lemma annuity_js_zero_rate: "annuity_js (Num P) (Num 0) n = NaN"
  by (simp add: annuity_js_def minus_jsnum_def)

lemma paymentAmount_plain:
  assumes "paymentFrequency s \<noteq> ''accelerated_biweekly''" "paymentFrequency s \<noteq> ''accelerated_weekly''"
  shows "paymentAmount s =
    (if interestRate s = 0 then mortgageAmount s / Num (real (paymentCount s))
     else annuity_js (mortgageAmount s) (Num (periodicRate s)) (paymentCount s))"
  unfolding paymentAmount_def Let_def interestRatePerPayment_Num
  using assms by (simp add: annuity_js_def paymentCount_def)

lemma paymentAmount_accelerated:
  "paymentFrequency s = ''accelerated_biweekly'' \<Longrightarrow> paymentAmount s = monthlyEquivalent s / Num 2"
  "paymentFrequency s = ''accelerated_weekly'' \<Longrightarrow> paymentAmount s = monthlyEquivalent s / Num 4"
  by (simp_all add: paymentAmount_def Let_def annuity_js_def monthlyEquivalent_def)

lemma standardMonthlyPayment_monthly:
  "standardMonthlyPayment s = paymentAmount (s\<lparr>paymentFrequency := ''monthly''\<rparr>)"
  by (simp add: paymentAmount_def Let_def annuity_js_def standardMonthlyPayment_def
      paymentsPerYearOf_cases mortgageAmount_def)

lemma monthlyEquivalent_standard:
  "interestRate s \<noteq> 0 \<Longrightarrow> monthlyEquivalent s = standardMonthlyPayment s"
  by (simp add: monthlyEquivalent_def standardMonthlyPayment_def)

lemma compound_ne_one:
  assumes "0 < interestRate s" "0 < amortizationPeriod s"
  shows "1 < (1 + periodicRate s) ^ paymentCount s"
  using compound_gt_one[of "interestRate s / 100" "paymentsPerYearOf s" "amortizationPeriod s"] assms
  by (simp add: periodicRate_def paymentCount_def)

lemma accelerated_exceeds_periodic:
  assumes "paymentFrequency s = ''accelerated_biweekly'' \<or> paymentFrequency s = ''accelerated_weekly''"
    and "0 < principalOf s" "0 < interestRate s" "0 < amortizationPeriod s"
  shows "\<exists>p. paymentAmount s = Num p \<and>
           annuity (principalOf s) (periodicRate s) (paymentCount s) < p"
proof -
  let ?a = "interestRate s / 100" and ?Y = "amortizationPeriod s" and ?P = "principalOf s"
  have a: "0 < ?a" using assms by simp
  have "1 < (1 + ?a / real (12::nat)) ^ (?Y * 12)"
    by (rule compound_gt_one) (use a assms in simp_all)
  then have q: "(1 + ?a / 12) ^ (?Y * 12) \<noteq> 1" by simp
  have M: "monthlyEquivalent s = Num (annuity ?P (?a / 12) (?Y * 12))"
    using annuity_js_Num[OF q, of ?P] by (simp add: monthlyEquivalent_def mortgageAmount_Num)
  from assms(1) show ?thesis
  proof
    assume f: "paymentFrequency s = ''accelerated_biweekly''"
    have lt: "annuity ?P (?a / real (26::nat)) (?Y * 26) < annuity ?P (?a / 12) (?Y * 12) / 2"
      by (rule annuity_accelerated_exceeds) (use assms a in simp_all)
    have pa: "paymentAmount s = Num (annuity ?P (?a / 12) (?Y * 12) / 2)"
      using f M by (simp add: paymentAmount_accelerated)
    have pr: "periodicRate s = ?a / real (26::nat)" "paymentCount s = ?Y * 26"
      using f by (simp_all add: periodicRate_def paymentCount_def paymentsPerYearOf_cases)
    show ?thesis using pa lt unfolding pr by blast
  next
    assume f: "paymentFrequency s = ''accelerated_weekly''"
    have lt: "annuity ?P (?a / real (52::nat)) (?Y * 52) < annuity ?P (?a / 12) (?Y * 12) / 4"
      by (rule annuity_accelerated_exceeds) (use assms a in simp_all)
    have pa: "paymentAmount s = Num (annuity ?P (?a / 12) (?Y * 12) / 4)"
      using f M by (simp add: paymentAmount_accelerated)
    have pr: "periodicRate s = ?a / real (52::nat)" "paymentCount s = ?Y * 52"
      using f by (simp_all add: periodicRate_def paymentCount_def paymentsPerYearOf_cases)
    show ?thesis using pa lt unfolding pr by blast
  qed
qed

text \<open>
  The accelerated override. For an accelerated frequency the payment is the branch's
  \<open>monthlyEquivalent\<close> divided by 2 (bi-weekly) or 4 (weekly). For a non-zero rate that is
  the standard monthly payment, which is the payment the same scenario has at the monthly
  frequency. It is not the value of the formula at the true periodic rate and payment
  count: for a positive principal, a positive rate and at least one year it is strictly
  greater.
\<close>

theorem accelerated_payment_is_fraction_of_monthly:
  "(paymentFrequency s = ''accelerated_biweekly'' \<and> interestRate s \<noteq> 0 \<longrightarrow>
      paymentAmount s = standardMonthlyPayment s / Num 2) \<and>
   (paymentFrequency s = ''accelerated_weekly'' \<and> interestRate s \<noteq> 0 \<longrightarrow>
      paymentAmount s = standardMonthlyPayment s / Num 4) \<and>
   standardMonthlyPayment s = paymentAmount (s\<lparr>paymentFrequency := ''monthly''\<rparr>) \<and>
   ((paymentFrequency s = ''accelerated_biweekly'' \<or> paymentFrequency s = ''accelerated_weekly'') \<and>
    0 < principalOf s \<and> 0 < interestRate s \<and> 0 < amortizationPeriod s \<longrightarrow>
      js_gt (paymentAmount s)
        (annuity_js (mortgageAmount s) (Num (periodicRate s)) (paymentCount s)))"
proof -
  have "js_gt (paymentAmount s) (annuity_js (mortgageAmount s) (Num (periodicRate s)) (paymentCount s))"
    if h: "paymentFrequency s = ''accelerated_biweekly'' \<or> paymentFrequency s = ''accelerated_weekly''"
      "0 < principalOf s" "0 < interestRate s" "0 < amortizationPeriod s"
  proof -
    obtain p where p: "paymentAmount s = Num p"
      "annuity (principalOf s) (periodicRate s) (paymentCount s) < p"
      using accelerated_exceeds_periodic[OF h] by blast
    have "(1 + periodicRate s) ^ paymentCount s \<noteq> 1"
      using compound_ne_one[OF h(3,4)] by simp
    from annuity_js_Num[OF this] p show ?thesis by (simp add: mortgageAmount_Num)
  qed
  then show ?thesis
    using paymentAmount_accelerated[of s] monthlyEquivalent_standard[of s]
      standardMonthlyPayment_monthly[of s] by metis
qed

text \<open>
  Claim C1, at the interest-free defaults with accelerated bi-weekly payments (the input
  of claim C2): the standard monthly payment of this loan is \<open>400000 / 300\<close>, which is
  what the same scenario pays at the monthly frequency, and half of it is \<open>2000 / 3\<close>;
  the accelerated branch evaluates the formula with no test for a zero rate and gives
  \<open>NaN\<close> instead.
\<close>

theorem C1_zero_rate_accelerated_payment_is_not_half_the_monthly:
  "standardMonthlyPayment zeroRateAccelerated = Num (4000 / 3) \<and>
   paymentAmount (zeroRateAccelerated\<lparr>paymentFrequency := ''monthly''\<rparr>) = Num (4000 / 3) \<and>
   standardMonthlyPayment zeroRateAccelerated / Num 2 = Num (2000 / 3) \<and>
   paymentAmount zeroRateAccelerated = NaN \<and>
   paymentAmount zeroRateAccelerated \<noteq> standardMonthlyPayment zeroRateAccelerated / Num 2"
  by (simp add: standardMonthlyPayment_def paymentAmount_def Let_def zeroRateAccelerated_def
      paymentsPerYearOf_cases mortgageAmount_def minus_jsnum_def)

text \<open>
  Claim C3, amended. For every scenario whose frequency is not an accelerated one: with a
  non-zero rate the payment is \<open>principal \<times> r(1+r)\<^sup>n / ((1+r)\<^sup>n - 1)\<close>, with \<open>r\<close> the
  periodic rate and \<open>n = amortizationPeriod \<times> paymentsPerYear\<close>, and with a zero rate it
  is \<open>principal / n\<close>, both as the source's arithmetic evaluates them. Where the formula
  divides by a non-zero number (\<open>(1+r)\<^sup>n \<noteq> 1\<close>, which every positive rate over at least one
  year gives) the payment is that real number and satisfies the annuity identity
  \<open>payment \<times> ((1+r)\<^sup>n - 1) / r = principal \<times> (1+r)\<^sup>n\<close>; with a zero rate and at least one
  year it is the real number \<open>principal / n\<close>.
\<close>

theorem C3_annuity_formula_when_not_accelerated:
  "paymentFrequency s \<noteq> ''accelerated_biweekly'' \<and> paymentFrequency s \<noteq> ''accelerated_weekly'' \<longrightarrow>
     (interestRate s \<noteq> 0 \<longrightarrow>
        paymentAmount s = annuity_js (mortgageAmount s) (Num (periodicRate s)) (paymentCount s)) \<and>
     (interestRate s = 0 \<longrightarrow>
        paymentAmount s = mortgageAmount s / Num (real (paymentCount s))) \<and>
     (interestRate s \<noteq> 0 \<and> (1 + periodicRate s) ^ paymentCount s \<noteq> 1 \<longrightarrow>
        paymentAmount s = Num (annuity (principalOf s) (periodicRate s) (paymentCount s)) \<and>
        annuity (principalOf s) (periodicRate s) (paymentCount s) *
          ((1 + periodicRate s) ^ paymentCount s - 1) / periodicRate s =
        principalOf s * (1 + periodicRate s) ^ paymentCount s) \<and>
     (0 < interestRate s \<and> 0 < amortizationPeriod s \<longrightarrow> (1 + periodicRate s) ^ paymentCount s \<noteq> 1) \<and>
     (interestRate s = 0 \<and> 0 < amortizationPeriod s \<longrightarrow>
        paymentAmount s = Num (principalOf s / real (paymentCount s)))"
proof (intro impI conjI; (elim conjE)?)
  assume f: "paymentFrequency s \<noteq> ''accelerated_biweekly''" "paymentFrequency s \<noteq> ''accelerated_weekly''"
    and r: "interestRate s \<noteq> 0"
  show "paymentAmount s = annuity_js (mortgageAmount s) (Num (periodicRate s)) (paymentCount s)"
    using paymentAmount_plain[OF f] r by simp
next
  assume f: "paymentFrequency s \<noteq> ''accelerated_biweekly''" "paymentFrequency s \<noteq> ''accelerated_weekly''"
    and r: "interestRate s = 0"
  show "paymentAmount s = mortgageAmount s / Num (real (paymentCount s))"
    using paymentAmount_plain[OF f] r by simp
next
  assume f: "paymentFrequency s \<noteq> ''accelerated_biweekly''" "paymentFrequency s \<noteq> ''accelerated_weekly''"
    and r: "interestRate s \<noteq> 0" and q: "(1 + periodicRate s) ^ paymentCount s \<noteq> 1"
  show "paymentAmount s = Num (annuity (principalOf s) (periodicRate s) (paymentCount s))"
    using paymentAmount_plain[OF f] r annuity_js_Num[OF q] by (simp add: mortgageAmount_Num)
  have "periodicRate s \<noteq> 0" using r by (simp add: periodicRate_def)
  then show "annuity (principalOf s) (periodicRate s) (paymentCount s) *
          ((1 + periodicRate s) ^ paymentCount s - 1) / periodicRate s =
        principalOf s * (1 + periodicRate s) ^ paymentCount s"
    using q by (simp add: annuity_def)
next
  assume "0 < interestRate s" "0 < amortizationPeriod s"
  then show "(1 + periodicRate s) ^ paymentCount s \<noteq> 1"
    using compound_ne_one[of s] by simp
next
  assume f: "paymentFrequency s \<noteq> ''accelerated_biweekly''" "paymentFrequency s \<noteq> ''accelerated_weekly''"
    and r: "interestRate s = 0" and y: "0 < amortizationPeriod s"
  show "paymentAmount s = Num (principalOf s / real (paymentCount s))"
    using paymentAmount_plain[OF f] r y by (simp add: mortgageAmount_Num paymentCount_def)
qed

text \<open>
  The claim as stated fails at the form's scenario B (accelerated bi-weekly, 4.5 percent,
  25 years, 400000 financed): the rate is not zero and the payment is not the formula's
  value at the periodic rate 4.5/100/26 over 650 payments.
\<close>

theorem C3_counterexample:
  "interestRate defaultScenarioB \<noteq> 0 \<and>
   principalOf defaultScenarioB = 400000 \<and>
   periodicRate defaultScenarioB = 9 / 5200 \<and>
   paymentCount defaultScenarioB = 650 \<and>
   paymentAmount defaultScenarioB \<noteq> Num (annuity 400000 (9 / 5200) 650)"
proof -
  have v: "principalOf defaultScenarioB = 400000" "periodicRate defaultScenarioB = 9 / 5200"
    "paymentCount defaultScenarioB = 650" "interestRate defaultScenarioB \<noteq> 0"
    by (simp_all add: defaultScenarioB_def principalOf_def periodicRate_def paymentCount_def
        paymentsPerYearOf_cases)
  have "\<exists>p. paymentAmount defaultScenarioB = Num p \<and>
    annuity (principalOf defaultScenarioB) (periodicRate defaultScenarioB) (paymentCount defaultScenarioB) < p"
    by (rule accelerated_exceeds_periodic) (simp_all add: v, simp_all add: defaultScenarioB_def)
  then show ?thesis using v by auto
qed

text \<open>The form's scenario A (monthly, 5.5 percent) and the interest-free monthly loan.\<close>

theorem C3_witness:
  "paymentFrequency defaultScenarioA \<noteq> ''accelerated_biweekly'' \<and>
   paymentFrequency defaultScenarioA \<noteq> ''accelerated_weekly'' \<and>
   interestRate defaultScenarioA \<noteq> 0 \<and>
   (1 + periodicRate defaultScenarioA) ^ paymentCount defaultScenarioA \<noteq> 1 \<and>
   paymentAmount defaultScenarioA = Num (annuity 400000 (11 / 2400) 300) \<and>
   annuity 400000 (11 / 2400) 300 * ((1 + 11 / 2400) ^ 300 - 1) / (11 / 2400) =
     400000 * (1 + 11 / 2400) ^ 300 \<and>
   interestRate earlyPayoff = 0 \<and> 0 < amortizationPeriod earlyPayoff \<and>
   paymentAmount earlyPayoff = Num 1000"
proof -
  have a: "principalOf defaultScenarioA = 400000" "periodicRate defaultScenarioA = 11 / 2400"
    "paymentCount defaultScenarioA = 300"
    by (simp_all add: defaultScenarioA_def principalOf_def periodicRate_def paymentCount_def
        paymentsPerYearOf_cases)
  have fa: "paymentFrequency defaultScenarioA \<noteq> ''accelerated_biweekly''"
    "paymentFrequency defaultScenarioA \<noteq> ''accelerated_weekly''"
    "interestRate defaultScenarioA \<noteq> 0" "0 < interestRate defaultScenarioA"
    "0 < amortizationPeriod defaultScenarioA"
    by (simp_all add: defaultScenarioA_def)
  have e: "principalOf earlyPayoff = 60000" "real (paymentCount earlyPayoff) = 60"
    by (simp_all add: earlyPayoff_def principalOf_def paymentCount_def paymentsPerYearOf_cases)
  have fe: "paymentFrequency earlyPayoff \<noteq> ''accelerated_biweekly''"
    "paymentFrequency earlyPayoff \<noteq> ''accelerated_weekly''"
    "interestRate earlyPayoff = 0" "0 < amortizationPeriod earlyPayoff"
    by (simp_all add: earlyPayoff_def)
  note A = C3_annuity_formula_when_not_accelerated [of defaultScenarioA]
  note E = C3_annuity_formula_when_not_accelerated [of earlyPayoff]
  from A fa have q: "(1 + periodicRate defaultScenarioA) ^ paymentCount defaultScenarioA \<noteq> 1"
    by blast
  from A fa q have
    "paymentAmount defaultScenarioA =
       Num (annuity (principalOf defaultScenarioA) (periodicRate defaultScenarioA)
              (paymentCount defaultScenarioA))"
    "annuity (principalOf defaultScenarioA) (periodicRate defaultScenarioA)
         (paymentCount defaultScenarioA) *
       ((1 + periodicRate defaultScenarioA) ^ paymentCount defaultScenarioA - 1) /
       periodicRate defaultScenarioA =
     principalOf defaultScenarioA *
       (1 + periodicRate defaultScenarioA) ^ paymentCount defaultScenarioA"
    by blast+
  then have pa: "paymentAmount defaultScenarioA = Num (annuity 400000 (11 / 2400) 300)"
    "annuity 400000 (11 / 2400) 300 * ((1 + 11 / 2400) ^ 300 - 1) / (11 / 2400) =
     400000 * (1 + 11 / 2400) ^ 300"
    unfolding a by blast+
  from E fe have "paymentAmount earlyPayoff =
      Num (principalOf earlyPayoff / real (paymentCount earlyPayoff))" by blast
  then have pe: "paymentAmount earlyPayoff = Num 1000" unfolding e by simp
  from fa fe q pa pe show ?thesis by blast
qed

section \<open>Schedules whose numbers are all finite\<close>

lemma scenarioRun_yearLoop:
  "scenarioRun s = yearLoop (scenarioParams s) 1 (initialVars (mortgageAmount s))"
  by (simp add: scenarioRun_def runSchedule_def scenarioParams_def)

lemma scenarioParams_simps [simp]:
  "principal (scenarioParams s) = Num (principalOf s)"
  "amortizationYears (scenarioParams s) = amortizationPeriod s"
  "paymentsPerYear (scenarioParams s) = paymentsPerYearOf s"
  "term_p (scenarioParams s) = term_years s"
  "extraPayment_p (scenarioParams s) = Num (extraPayment s)"
  "annualPrepayment_p (scenarioParams s) = Num (annualPrepayment s)"
  "interestRatePerPayment (scenarioParams s) = Num (periodicRate s)"
  "adjustedPayment (scenarioParams s) = paymentAmount s * Num (1 + paymentIncrease s / 100)"
  by (simp_all add: scenarioParams_def scheduleParams_def mortgageAmount_Num periodicRate_def)

lemma initialVars_simps [simp]:
  "balance (initialVars P) = P"
  "totalInterestPaid (initialVars P) = Num 0"
  "lastPaymentNumber (initialVars P) = 0"
  "yearlySchedule (initialVars P) = []"
  by (simp_all add: initialVars_def)

lemma processPayment_Num:
  assumes "adjustedPayment p = Num A" "interestRatePerPayment p = Num r"
    "extraPayment_p p = Num e" "balance s = Num b"
  shows "balance (processPayment p y j s) = Num (payStep A r e b)"
    and "totalInterestPaid (processPayment p y j s) = totalInterestPaid s + Num (b * r)"
    and "lastPaymentNumber (processPayment p y j s) = lastPaymentNumber s"
  using assms by (simp_all add: processPayment_def payStep_def Let_def minus_jsnum_def)

lemma applyAnnualPrepayment_Num:
  assumes "principal p = Num P" "annualPrepayment_p p = Num a" "balance s = Num b"
  shows "balance (applyAnnualPrepayment p s) = Num (prepayStep P a b)"
    and "totalInterestPaid (applyAnnualPrepayment p s) = totalInterestPaid s"
    and "lastPaymentNumber (applyAnnualPrepayment p s) = lastPaymentNumber s"
  using assms by (simp_all add: applyAnnualPrepayment_def prepayStep_def Let_def minus_jsnum_def)

lemma pushYear_simps [simp]:
  "balance (pushYear y s) = balance s"
  "totalInterestPaid (pushYear y s) = totalInterestPaid s"
  "lastPaymentNumber (pushYear y s) = lastPaymentNumber s"
  by (simp_all add: pushYear_def)

section \<open>Yearly balances reconcile with the principal paid\<close>

lemma balancesReconcile_snoc:
  "balancesReconcile prev (xs @ [it]) =
     (balancesReconcile prev xs \<and> endingBalance it = lastBalance prev xs - principalPaid it)"
  by (induction xs arbitrary: prev) (auto simp: lastBalance_def)

lemma processPayment_reconcile:
  assumes "balance s = b0 - yearlyPrincipalPaid s"
  shows "balance (processPayment p y j s) = b0 - yearlyPrincipalPaid (processPayment p y j s)"
  using assms by (simp add: processPayment_def Let_def js_sub_sub)

lemma processPayment_schedule [simp]:
  "yearlySchedule (processPayment p y j s) = yearlySchedule s"
  by (simp add: processPayment_def Let_def)

lemma paymentLoop_reconcile:
  assumes "balance st = b0 - yearlyPrincipalPaid st"
  shows "balance (paymentLoop p y i st) = b0 - yearlyPrincipalPaid (paymentLoop p y i st) \<and>
         yearlySchedule (paymentLoop p y i st) = yearlySchedule st"
proof (rule paymentLoop_rule
    [where I = "\<lambda>j s. balance s = b0 - yearlyPrincipalPaid s \<and> yearlySchedule s = yearlySchedule st"])
  show "balance st = b0 - yearlyPrincipalPaid st \<and> yearlySchedule st = yearlySchedule st"
    using assms by simp
qed (simp_all add: processPayment_reconcile)

lemma applyAnnualPrepayment_reconcile:
  assumes "balance s = b0 - yearlyPrincipalPaid s"
  shows "balance (applyAnnualPrepayment p s) = b0 - yearlyPrincipalPaid (applyAnnualPrepayment p s) \<and>
         yearlySchedule (applyAnnualPrepayment p s) = yearlySchedule s"
  using assms by (simp add: applyAnnualPrepayment_def Let_def js_sub_sub)

lemma yearBody_reconcile:
  "yearlySchedule (yearBody p y st) =
     yearlySchedule st @ [last (yearlySchedule (yearBody p y st))] \<and>
   endingBalance (last (yearlySchedule (yearBody p y st))) = balance (yearBody p y st) \<and>
   balance (yearBody p y st) =
     balance st - principalPaid (last (yearlySchedule (yearBody p y st)))"
proof -
  let ?s0 = "st\<lparr>yearlyPrincipalPaid := Num 0, yearlyInterestPaid := Num 0, yearlyExtraPayments := Num 0\<rparr>"
  have "balance ?s0 = balance st - yearlyPrincipalPaid ?s0" by simp
  from paymentLoop_reconcile[OF this, of p y 1]
  have a: "balance (paymentLoop p y 1 ?s0) = balance st - yearlyPrincipalPaid (paymentLoop p y 1 ?s0)"
    and b: "yearlySchedule (paymentLoop p y 1 ?s0) = yearlySchedule st" by simp_all
  from applyAnnualPrepayment_reconcile[OF a, of p] b
  show ?thesis by (simp add: yearBody_def pushYear_def)
qed

lemma yearLoop_reconcile:
  assumes "balancesReconcile b0 (yearlySchedule st)" "balance st = lastBalance b0 (yearlySchedule st)"
  shows "balancesReconcile b0 (yearlySchedule (yearLoop p y st))"
proof (rule yearLoop_rule
    [where I = "\<lambda>j s. balancesReconcile b0 (yearlySchedule s) \<and> balance s = lastBalance b0 (yearlySchedule s)"
       and Q = "\<lambda>s. balancesReconcile b0 (yearlySchedule s)"])
  show "balancesReconcile b0 (yearlySchedule st) \<and> balance st = lastBalance b0 (yearlySchedule st)"
    using assms by simp
next
  fix j :: nat and s :: sched_vars
  assume I: "balancesReconcile b0 (yearlySchedule s) \<and> balance s = lastBalance b0 (yearlySchedule s)"
  have *: "balancesReconcile b0 (yearlySchedule (yearBody p j s)) \<and>
        balance (yearBody p j s) = lastBalance b0 (yearlySchedule (yearBody p j s))"
    using yearBody_reconcile[of p j s] I
    by (metis balancesReconcile_snoc lastBalance_def snoc_eq_iff_butlast)
  show "balancesReconcile b0 (yearlySchedule (yearBody p j s)) \<and>
        balance (yearBody p j s) = lastBalance b0 (yearlySchedule (yearBody p j s))"
    by (rule *)
  show "balancesReconcile b0 (yearlySchedule (yearBody p j s))" using * by simp
  show "balancesReconcile b0 (yearlySchedule s)" using I by simp
qed

section \<open>The term-end snapshot\<close>

lemma snapshotInv_processPayment:
  assumes "snapshotInv p y j s"
  shows "snapshotInv p y (j + 1) (processPayment p y j (s\<lparr>lastPaymentNumber := n\<rparr>))"
  using assms unfolding snapshotInv_def processPayment_def Let_def
  by (auto simp: less_Suc_eq)

lemma snapshotInv_paymentLoop:
  assumes "snapshotInv p y i st"
  shows "snapshotInv p (y + 1) 1 (paymentLoop p y i st)"
proof (rule paymentLoop_rule[where I = "\<lambda>j s. snapshotInv p y j s"])
  show "snapshotInv p y i st" by (rule assms)
next
  fix j :: nat and s :: sched_vars
  assume "snapshotInv p y j s"
  then show "snapshotInv p y (j + 1) (processPayment p y j (s\<lparr>lastPaymentNumber := lastPaymentNumber s + 1\<rparr>))"
    by (rule snapshotInv_processPayment)
next
  fix j :: nat and s :: sched_vars
  assume "snapshotInv p y j s"
  then show "snapshotInv p (y + 1) 1 (s\<lparr>lastPaymentNumber := lastPaymentNumber s + 1\<rparr>)"
    unfolding snapshotInv_def by auto
next
  fix j :: nat and s :: sched_vars
  assume "snapshotInv p y j s"
  then show "snapshotInv p (y + 1) 1 s"
    unfolding snapshotInv_def by auto
qed

lemma snapshotInv_yearBody:
  assumes "snapshotInv p y 1 st"
  shows "snapshotInv p (y + 1) 1 (yearBody p y st)"
proof -
  let ?s0 = "st\<lparr>yearlyPrincipalPaid := Num 0, yearlyInterestPaid := Num 0, yearlyExtraPayments := Num 0\<rparr>"
  have "snapshotInv p y 1 ?s0" using assms unfolding snapshotInv_def by simp
  then have "snapshotInv p (y + 1) 1 (paymentLoop p y 1 ?s0)" by (rule snapshotInv_paymentLoop)
  then show ?thesis
    unfolding snapshotInv_def yearBody_def pushYear_def applyAnnualPrepayment_def Let_def by simp
qed

lemma snapshotInv_yearLoop:
  assumes "snapshotInv p y 1 st"
  shows "\<exists>y'. snapshotInv p y' 1 (yearLoop p y st)"
proof (rule yearLoop_rule[where I = "\<lambda>j s. snapshotInv p j 1 s"])
  show "snapshotInv p y 1 st" by (rule assms)
next
  fix j :: nat and s :: sched_vars
  assume "snapshotInv p j 1 s"
  then show "snapshotInv p (j + 1) 1 (yearBody p j s)" by (rule snapshotInv_yearBody)
next
  fix j :: nat and s :: sched_vars
  assume "snapshotInv p j 1 s"
  then have "snapshotInv p (j + 1) 1 (yearBody p j s)" by (rule snapshotInv_yearBody)
  then show "\<exists>y'. snapshotInv p y' 1 (yearBody p j s)" ..
next
  fix j :: nat and s :: sched_vars
  assume "snapshotInv p j 1 s"
  then show "\<exists>y'. snapshotInv p y' 1 s" ..
qed

lemma snapshotInv_run:
  "\<exists>y'. snapshotInv (scheduleParams a b c d e f g h k) y' 1 (runSchedule a b c d e f g h k)"
  unfolding runSchedule_def
  by (rule snapshotInv_yearLoop) (simp add: snapshotInv_def initialVars_def)

text \<open>
  Claim C5. \<open>balanceAtEndOfTerm\<close> and \<open>totalInterestTerm\<close> are set exactly by the last
  payment of the term year (year \<open>term\<close>, payment index \<open>paymentsPerYear\<close>): if that payment
  is processed, they are the balance and the cumulative interest it leaves; if it is never
  processed (the balance was cleared earlier, or the loop has no such year), both keep
  their initial value 0.
\<close>

theorem C5_term_end_snapshot:
  "(\<forall>b t. (term_years s, paymentsPerYearOf s, b, t) \<in> set (executed (scenarioRun s)) \<longrightarrow>
      balanceAtEndOfTerm (calculateMortgage s) = b \<and> totalInterestTerm (calculateMortgage s) = t) \<and>
   ((\<forall>b t. (term_years s, paymentsPerYearOf s, b, t) \<notin> set (executed (scenarioRun s))) \<longrightarrow>
      balanceAtEndOfTerm (calculateMortgage s) = Num 0 \<and> totalInterestTerm (calculateMortgage s) = Num 0)"
proof -
  let ?p = "scheduleParams (mortgageAmount s) (Num (interestRate s)) (amortizationPeriod s)
      (paymentAmount s) (paymentsPerYearOf s) (term_years s) (Num (extraPayment s))
      (Num (paymentIncrease s)) (Num (annualPrepayment s))"
  obtain y' where "snapshotInv ?p y' 1 (scenarioRun s)"
    unfolding scenarioRun_def using snapshotInv_run by blast
  moreover have "term_p ?p = term_years s" "paymentsPerYear ?p = paymentsPerYearOf s"
    by (simp_all add: scheduleParams_def)
  ultimately show ?thesis unfolding snapshotInv_def by (simp add: calculateMortgage_run)
qed

text \<open>
  With 3000 extra the twelfth payment of year 1 is processed and leaves 12000; with 5000
  extra the loan is cleared at the tenth payment and the snapshot stays 0.
\<close>

theorem C5_witness:
  "(1, 12, Num 12000, Num 0) \<in> set (executed (scenarioRun termReached)) \<and>
   balanceAtEndOfTerm (calculateMortgage termReached) = Num 12000 \<and>
   totalInterestTerm (calculateMortgage termReached) = Num 0 \<and>
   (\<forall>b t. (1, 12, b, t) \<notin> set (executed (scenarioRun earlyPayoff))) \<and>
   balanceAtEndOfTerm (calculateMortgage earlyPayoff) = Num 0 \<and>
   totalInterestTerm (calculateMortgage earlyPayoff) = Num 0"
proof -
  have t: "term_years termReached = 1" "paymentsPerYearOf termReached = 12"
    "term_years earlyPayoff = 1" "paymentsPerYearOf earlyPayoff = 12"
    by (simp_all add: termReached_def earlyPayoff_def paymentsPerYearOf_cases)
  have a: "(1, 12, Num 12000, Num 0) \<in> set (executed (scenarioRun termReached))"
    by (simp add: termReached_run)
  have b: "\<forall>b t. (1, 12, b, t) \<notin> set (executed (scenarioRun earlyPayoff))"
    by (simp add: earlyPayoff_run)
  from C5_term_end_snapshot [of termReached] C5_term_end_snapshot [of earlyPayoff] a b t
  show ?thesis by simp
qed

section \<open>Effective amortization\<close>

lemma js_le_not_gt: "js_le x (Num 0) \<Longrightarrow> \<not> js_gt x (Num 0)"
  by (cases x) simp_all

lemma paymentLoop_counter:
  assumes "lastPaymentNumber st = length (executed st)"
  shows "lastPaymentNumber (paymentLoop p y i st) = length (executed (paymentLoop p y i st)) \<or>
    lastPaymentNumber (paymentLoop p y i st) = length (executed (paymentLoop p y i st)) + 1 \<and>
    js_le (balance (paymentLoop p y i st)) (Num 0)"
  by (rule paymentLoop_rule[where I = "\<lambda>j s. lastPaymentNumber s = length (executed s)"])
     (use assms in \<open>simp_all add: processPayment_def Let_def\<close>)

lemma yearBody_counter:
  assumes "lastPaymentNumber st = length (executed st)"
  shows "lastPaymentNumber (yearBody p y st) = length (executed (yearBody p y st)) \<or>
    lastPaymentNumber (yearBody p y st) = length (executed (yearBody p y st)) + 1 \<and>
    js_le (balance (yearBody p y st)) (Num 0)"
proof -
  let ?s0 = "st\<lparr>yearlyPrincipalPaid := Num 0, yearlyInterestPaid := Num 0, yearlyExtraPayments := Num 0\<rparr>"
  have "lastPaymentNumber ?s0 = length (executed ?s0)" using assms by simp
  from paymentLoop_counter[OF this, of p y 1] show ?thesis
    by (auto simp: yearBody_def pushYear_def applyAnnualPrepayment_def Let_def dest: js_le_not_gt)
qed

lemma yearLoop_counter:
  assumes "lastPaymentNumber st = length (executed st)"
  shows "lastPaymentNumber (yearLoop p y st) = length (executed (yearLoop p y st)) \<or>
    lastPaymentNumber (yearLoop p y st) = length (executed (yearLoop p y st)) + 1"
proof (rule yearLoop_rule[where I = "\<lambda>j s. lastPaymentNumber s = length (executed s)"])
  show "lastPaymentNumber st = length (executed st)" by fact
next
  fix j :: nat and s :: sched_vars
  assume I: "lastPaymentNumber s = length (executed s)"
  note c = yearBody_counter[OF I, of p j]
  show "lastPaymentNumber (yearBody p j s) = length (executed (yearBody p j s)) \<or>
    lastPaymentNumber (yearBody p j s) = length (executed (yearBody p j s)) + 1"
    using c by blast
  show "lastPaymentNumber s = length (executed s) \<or> lastPaymentNumber s = length (executed s) + 1"
    using I by simp
  assume "\<not> js_le (balance (yearBody p j s)) (Num 0)"
  with c show "lastPaymentNumber (yearBody p j s) = length (executed (yearBody p j s))" by blast
qed

text \<open>
  In every run \<open>lastPaymentNumber\<close> is the number of payments processed, or one more: the
  one more is the pass of the payment loop that found the balance cleared and left.
\<close>

theorem lastPaymentNumber_is_processed_or_one_more:
  "lastPaymentNumber (scenarioRun s) = length (executed (scenarioRun s)) \<or>
   lastPaymentNumber (scenarioRun s) = length (executed (scenarioRun s)) + 1"
  unfolding scenarioRun_yearLoop by (rule yearLoop_counter) (simp add: initialVars_def)

text \<open>
  Claim C4, at the loan of 60000 cleared by ten payments of 6000: ten payments are
  processed, yet \<open>lastPaymentNumber\<close> is 11, because the eleventh pass of the loop
  increments it before it tests the balance and leaves. The effective amortization comes
  out as 11/12 of a year where the payments processed make 10/12.
\<close>

theorem C4_effectiveAmortization_counts_the_break:
  "length (executed (scenarioRun earlyPayoff)) = 10 \<and>
   lastPaymentNumber (scenarioRun earlyPayoff) = 11 \<and>
   effectiveAmortization (calculateMortgage earlyPayoff) = Num (11 / 12) \<and>
   Num (real (length (executed (scenarioRun earlyPayoff)))) /
     Num (real (paymentsPerYearOf earlyPayoff)) = Num (10 / 12)"
  by (simp add: calculateMortgage_run earlyPayoff_run)
     (simp add: earlyPayoff_def paymentsPerYearOf_cases)

section \<open>Interest-free scenarios\<close>

lemma zeroInterest_paymentLoop:
  assumes p: "adjustedPayment p = Num A" "interestRatePerPayment p = Num 0" "extraPayment_p p = Num e"
    and "zeroInterest st"
  shows "zeroInterest (paymentLoop p y i st)"
proof (rule paymentLoop_rule[where I = "\<lambda>j s. zeroInterest s"])
  show "zeroInterest st" by fact
next
  fix j :: nat and s :: sched_vars
  assume z: "zeroInterest s"
  then obtain b where b: "balance s = Num b" by (auto simp: zeroInterest_def isNum_iff)
  let ?s1 = "s\<lparr>lastPaymentNumber := lastPaymentNumber s + 1\<rparr>"
  have "balance ?s1 = Num b" using b by simp
  from processPayment_Num[OF p this, of y j] z
  show "zeroInterest (processPayment p y j ?s1)" by (simp add: zeroInterest_def)
qed (simp_all add: zeroInterest_def)

lemma zeroInterest_yearBody:
  assumes p: "adjustedPayment p = Num A" "interestRatePerPayment p = Num 0" "extraPayment_p p = Num e"
    "principal p = Num P" "annualPrepayment_p p = Num a"
    and z: "zeroInterest st"
  shows "zeroInterest (yearBody p y st)"
proof -
  let ?s0 = "st\<lparr>yearlyPrincipalPaid := Num 0, yearlyInterestPaid := Num 0, yearlyExtraPayments := Num 0\<rparr>"
  have "zeroInterest ?s0" using z by (simp add: zeroInterest_def)
  from zeroInterest_paymentLoop[OF p(1-3) this, of y 1]
  have z1: "zeroInterest (paymentLoop p y 1 ?s0)" .
  then obtain b where "balance (paymentLoop p y 1 ?s0) = Num b"
    by (auto simp: zeroInterest_def isNum_iff)
  from applyAnnualPrepayment_Num[OF p(4,5) this] z1
  show ?thesis by (simp add: yearBody_def zeroInterest_def)
qed

lemma zeroInterest_yearLoop:
  assumes p: "adjustedPayment p = Num A" "interestRatePerPayment p = Num 0" "extraPayment_p p = Num e"
    "principal p = Num P" "annualPrepayment_p p = Num a"
    and z: "zeroInterest st"
  shows "zeroInterest (yearLoop p y st)"
  by (rule yearLoop_rule[where I = "\<lambda>j s. zeroInterest s"])
     (use z zeroInterest_yearBody[OF p] in auto)

lemma withinRounding_refl: "isNum x \<Longrightarrow> withinRounding c x x"
  by (simp add: withinRounding_def)

text \<open>
  Claim C6, amended. For every scenario with a zero rate, at least one year and a
  frequency that is not an accelerated one, whatever the prepayment options: the lifetime
  interest is 0; the payment per period times \<open>amortizationPeriod \<times> paymentsPerYear\<close> is
  the financed principal within rounding; and \<open>monthlyPayment\<close>, which is the monthly
  equivalent \<open>payment \<times> paymentsPerYear / 12\<close>, times \<open>amortizationPeriod \<times> 12\<close> is the
  financed principal within rounding (for the monthly frequency, 12 is \<open>paymentsPerYear\<close>).
  The model computes in exact arithmetic, where the two products are the principal
  itself.
\<close>

theorem C6_zero_rate_when_not_accelerated:
  "interestRate s = 0 \<and> 0 < amortizationPeriod s \<and>
   paymentFrequency s \<noteq> ''accelerated_biweekly'' \<and> paymentFrequency s \<noteq> ''accelerated_weekly'' \<longrightarrow>
     totalInterestLifetime (calculateMortgage s) = Num 0 \<and>
     withinRounding (principalOf s)
       (paymentAmount s * Num (real (amortizationPeriod s)) * Num (real (paymentsPerYearOf s)))
       (totalMortgage (calculateMortgage s)) \<and>
     withinRounding (principalOf s)
       (monthlyPayment (calculateMortgage s) * Num (real (amortizationPeriod s)) * Num 12)
       (totalMortgage (calculateMortgage s))"
proof (intro impI, elim conjE)
  assume r: "interestRate s = 0" and y: "0 < amortizationPeriod s"
    and f: "paymentFrequency s \<noteq> ''accelerated_biweekly''" "paymentFrequency s \<noteq> ''accelerated_weekly''"
  have pa: "paymentAmount s = Num (principalOf s / real (paymentCount s))"
    using paymentAmount_plain[OF f] r y by (simp add: mortgageAmount_Num paymentCount_def)
  have n: "real (paymentCount s) = real (amortizationPeriod s) * real (paymentsPerYearOf s)"
    by (simp add: paymentCount_def)
  have pos: "0 < real (amortizationPeriod s)" "0 < real (paymentsPerYearOf s)" using y by simp_all
  have t: "isNum (totalMortgage (calculateMortgage s))"
    by (simp add: calculateMortgage_run mortgageAmount_Num isNum_def)
  have "zeroInterest (scenarioRun s)"
    unfolding scenarioRun_yearLoop
    by (rule zeroInterest_yearLoop[where A = "principalOf s / real (paymentCount s) * (1 + paymentIncrease s / 100)"])
       (simp_all add: pa r periodicRate_def zeroInterest_def mortgageAmount_Num)
  then have 1: "totalInterestLifetime (calculateMortgage s) = Num 0"
    by (simp add: calculateMortgage_run zeroInterest_def)
  have "paymentAmount s * Num (real (amortizationPeriod s)) * Num (real (paymentsPerYearOf s)) =
       totalMortgage (calculateMortgage s)"
    using pos by (simp add: pa n calculateMortgage_run mortgageAmount_Num)
  then have 2: "withinRounding (principalOf s)
       (paymentAmount s * Num (real (amortizationPeriod s)) * Num (real (paymentsPerYearOf s)))
       (totalMortgage (calculateMortgage s))"
    using t by (simp add: withinRounding_refl)
  have m: "paymentFrequency s = ''monthly'' \<Longrightarrow> real (paymentsPerYearOf s) = 12"
    by (simp add: paymentsPerYearOf_cases)
  have "monthlyPayment (calculateMortgage s) * Num (real (amortizationPeriod s)) * Num 12 =
       totalMortgage (calculateMortgage s)"
    using pos m by (simp add: pa n calculateMortgage_run mortgageAmount_Num)
  then have 3: "withinRounding (principalOf s)
       (monthlyPayment (calculateMortgage s) * Num (real (amortizationPeriod s)) * Num 12)
       (totalMortgage (calculateMortgage s))"
    using t by (simp add: withinRounding_refl)
  from 1 2 3 show "totalInterestLifetime (calculateMortgage s) = Num 0 \<and>
     withinRounding (principalOf s)
       (paymentAmount s * Num (real (amortizationPeriod s)) * Num (real (paymentsPerYearOf s)))
       (totalMortgage (calculateMortgage s)) \<and>
     withinRounding (principalOf s)
       (monthlyPayment (calculateMortgage s) * Num (real (amortizationPeriod s)) * Num 12)
       (totalMortgage (calculateMortgage s))" by simp
qed

text \<open>The interest-free defaults paid bi-weekly: 650 payments of 8000/13.\<close>

theorem C6_witness:
  "interestRate zeroRateBiweekly = 0 \<and> 0 < amortizationPeriod zeroRateBiweekly \<and>
   paymentFrequency zeroRateBiweekly \<noteq> ''accelerated_biweekly'' \<and>
   paymentFrequency zeroRateBiweekly \<noteq> ''accelerated_weekly'' \<and>
   totalInterestLifetime (calculateMortgage zeroRateBiweekly) = Num 0 \<and>
   withinRounding 400000 (paymentAmount zeroRateBiweekly * Num 25 * Num 26) (Num 400000) \<and>
   withinRounding 400000 (monthlyPayment (calculateMortgage zeroRateBiweekly) * Num 25 * Num 12)
     (Num 400000)"
proof -
  have z: "interestRate zeroRateBiweekly = 0" "amortizationPeriod zeroRateBiweekly = 25"
    "paymentFrequency zeroRateBiweekly = ''biweekly''" "paymentsPerYearOf zeroRateBiweekly = 26"
    "principalOf zeroRateBiweekly = 400000"
    "totalMortgage (calculateMortgage zeroRateBiweekly) = Num 400000"
    by (simp_all add: zeroRateBiweekly_def zeroRateAccelerated_def paymentsPerYearOf_cases
        calculateMortgage_run mortgageAmount_def minus_jsnum_def principalOf_def)
  from C6_zero_rate_when_not_accelerated [of zeroRateBiweekly] show ?thesis
    unfolding z by simp
qed

text \<open>
  The claim as stated fails on the same scenario: \<open>monthlyPayment\<close> times
  \<open>amortizationPeriod \<times> paymentsPerYear\<close> is 866666.67, not within rounding of the 400000
  financed, because \<open>monthlyPayment\<close> is the monthly equivalent and not the bi-weekly
  payment.
\<close>

theorem C6_counterexample:
  "interestRate zeroRateBiweekly = 0 \<and>
   totalMortgage (calculateMortgage zeroRateBiweekly) = Num 400000 \<and>
   monthlyPayment (calculateMortgage zeroRateBiweekly) *
     Num (real (amortizationPeriod zeroRateBiweekly)) *
     Num (real (paymentsPerYearOf zeroRateBiweekly)) = Num (2600000 / 3) \<and>
   \<not> withinRounding 400000
     (monthlyPayment (calculateMortgage zeroRateBiweekly) *
        Num (real (amortizationPeriod zeroRateBiweekly)) *
        Num (real (paymentsPerYearOf zeroRateBiweekly)))
     (totalMortgage (calculateMortgage zeroRateBiweekly))"
  by (simp add: calculateMortgage_def paymentAmount_def zeroRateBiweekly_def zeroRateAccelerated_def Let_def
      paymentsPerYearOf_cases mortgageAmount_def minus_jsnum_def withinRounding_def)
section \<open>More extra payment, no more interest and no later payoff\<close>

lemma payStep_nonneg: "0 \<le> payStep A r e b"
  by (simp add: payStep_def Let_def min_def)

lemma payStep_mono:
  assumes "0 \<le> r" "b2 \<le> b1" "e1 \<le> e2"
  shows "payStep A r e2 b2 \<le> payStep A r e1 b1"
proof -
  have "b2 * r \<le> b1 * r" using assms by (simp add: mult_right_mono)
  then show ?thesis using assms(2,3)
    by (simp add: payStep_def Let_def min_def)
qed

lemma prepayStep_nonneg: "0 \<le> b \<Longrightarrow> 0 \<le> prepayStep P a b"
  by (simp add: prepayStep_def min_def)

lemma prepayStep_mono:
  assumes "b2 \<le> b1"
  shows "prepayStep P a b2 \<le> prepayStep P a b1"
proof -
  have "(if 0 < a \<and> 0 < b2 then b2 - min c b2 else b2) \<le>
        (if 0 < a \<and> 0 < b1 then b1 - min c b1 else b1)" for c :: real
    using assms by (auto simp: min_def)
  then show ?thesis unfolding prepayStep_def .
qed


lemma isNum_val: "isNum x \<Longrightarrow> x = Num (val x)"
  by (cases x) simp_all

lemma processPayment_advances:
  assumes p: "adjustedPayment p = Num A" "interestRatePerPayment p = Num r" "extraPayment_p p = Num e"
    and r: "0 \<le> r"
    and s: "isNum (balance s)" "0 \<le> val (balance s)" "isNum (totalInterestPaid s)"
  shows "advances s (processPayment p y j s)"
proof -
  from s obtain b t where bt: "balance s = Num b" "totalInterestPaid s = Num t" "0 \<le> b"
    by (auto simp: isNum_iff)
  have "0 \<le> b * r" using bt r by simp
  with processPayment_Num[OF p bt(1), of y j] bt payStep_nonneg[of A r e b]
  show ?thesis by (simp add: advances_def)
qed

lemma advances_trans: "advances s s' \<Longrightarrow> advances s' s'' \<Longrightarrow> advances s s''"
  by (auto simp: advances_def)

lemma paymentLoop_advances:
  assumes p: "adjustedPayment p = Num A" "interestRatePerPayment p = Num r" "extraPayment_p p = Num e"
    and r: "0 \<le> r"
    and s: "isNum (balance st)" "0 \<le> val (balance st)" "isNum (totalInterestPaid st)"
  shows "advances st (paymentLoop p y i st)"
proof (rule paymentLoop_rule[where I = "\<lambda>j s. advances st s"])
  show "advances st st" using s by (simp add: advances_def)
next
  fix j :: nat and s :: sched_vars
  assume a: "advances st s"
  let ?s1 = "s\<lparr>lastPaymentNumber := lastPaymentNumber s + 1\<rparr>"
  have a1: "advances st ?s1" using a by (simp add: advances_def)
  have "advances ?s1 (processPayment p y j ?s1)"
    by (rule processPayment_advances[OF p r]) (use a in \<open>simp_all add: advances_def\<close>)
  with a1 show "advances st (processPayment p y j ?s1)" by (rule advances_trans)
  show "advances st ?s1" by (rule a1)
qed

lemma yearBody_advances:
  assumes p: "adjustedPayment p = Num A" "interestRatePerPayment p = Num r" "extraPayment_p p = Num e"
    "principal p = Num P" "annualPrepayment_p p = Num a"
    and r: "0 \<le> r"
    and s: "isNum (balance st)" "0 \<le> val (balance st)" "isNum (totalInterestPaid st)"
  shows "advances st (yearBody p y st)"
proof -
  let ?s0 = "st\<lparr>yearlyPrincipalPaid := Num 0, yearlyInterestPaid := Num 0, yearlyExtraPayments := Num 0\<rparr>"
  have "advances ?s0 (paymentLoop p y 1 ?s0)"
    by (rule paymentLoop_advances[OF p(1-3) r]) (use s in simp_all)
  then have a: "advances st (paymentLoop p y 1 ?s0)" by (simp add: advances_def)
  then obtain b where b: "balance (paymentLoop p y 1 ?s0) = Num b" "0 \<le> b"
    by (auto simp: advances_def isNum_iff)
  from applyAnnualPrepayment_Num[OF p(4,5) b(1)] prepayStep_nonneg[OF b(2), of P a] a
  show ?thesis by (simp add: yearBody_def advances_def)
qed

lemma yearLoop_advances:
  assumes p: "adjustedPayment p = Num A" "interestRatePerPayment p = Num r" "extraPayment_p p = Num e"
    "principal p = Num P" "annualPrepayment_p p = Num a"
    and r: "0 \<le> r"
    and s: "isNum (balance st)" "0 \<le> val (balance st)" "isNum (totalInterestPaid st)"
  shows "advances st (yearLoop p y st)"
proof (rule yearLoop_rule[where I = "\<lambda>j s. advances st s"])
  show "advances st st" using s by (simp add: advances_def)
next
  fix j :: nat and s :: sched_vars
  assume a: "advances st s"
  have "advances s (yearBody p j s)"
    by (rule yearBody_advances[OF p r]) (use a in \<open>simp_all add: advances_def\<close>)
  with a show "advances st (yearBody p j s)" "advances st (yearBody p j s)"
    by (rule advances_trans)+
qed


lemma dominates_advances:
  assumes "dominates s1 s2" "advances s1 f1" "val (balance s2) \<le> 0"
  shows "dominates f1 s2"
  using assms by (auto simp: dominates_def advances_def)

lemma processPayment_dominates:
  assumes p1: "adjustedPayment p1 = Num A" "interestRatePerPayment p1 = Num r" "extraPayment_p p1 = Num e1"
    and p2: "adjustedPayment p2 = Num A" "interestRatePerPayment p2 = Num r" "extraPayment_p p2 = Num e2"
    and r: "0 \<le> r" and e: "e1 \<le> e2"
    and d: "dominates s1 s2"
  shows "dominates (processPayment p1 y j s1) (processPayment p2 y j s2)"
proof -
  from d obtain b1 b2 where b: "balance s1 = Num b1" "balance s2 = Num b2" "b2 \<le> b1"
    by (auto simp: dominates_def isNum_iff)
  from d obtain t1 t2 where t: "totalInterestPaid s1 = Num t1" "totalInterestPaid s2 = Num t2" "t2 \<le> t1"
    by (auto simp: dominates_def isNum_iff)
  have "b2 * r \<le> b1 * r" using b r by (simp add: mult_right_mono)
  with processPayment_Num[OF p1 b(1), of y j] processPayment_Num[OF p2 b(2), of y j]
    payStep_mono[OF r b(3) e, of A] t d
  show ?thesis by (simp add: dominates_def)
qed

lemma paymentLoop_dominates:
  assumes p1: "adjustedPayment p1 = Num A" "interestRatePerPayment p1 = Num r" "extraPayment_p p1 = Num e1"
    and p2: "adjustedPayment p2 = Num A" "interestRatePerPayment p2 = Num r" "extraPayment_p p2 = Num e2"
    and n: "paymentsPerYear p2 = paymentsPerYear p1"
    and r: "0 \<le> r" and e: "e1 \<le> e2"
    and d: "dominates s1 s2"
  shows "dominates (paymentLoop p1 y i s1) (paymentLoop p2 y i s2)"
  using d
proof (induction "paymentsPerYear p1 + 1 - i" arbitrary: i s1 s2)
  case 0
  then have "\<not> i \<le> paymentsPerYear p1" by simp
  then show ?case using "0.prems" n by (simp add: paymentLoop.simps)
next
  case (Suc k)
  then have i: "i \<le> paymentsPerYear p1" by simp
  let ?s1 = "s1\<lparr>lastPaymentNumber := lastPaymentNumber s1 + 1\<rparr>"
  let ?s2 = "s2\<lparr>lastPaymentNumber := lastPaymentNumber s2 + 1\<rparr>"
  have d': "dominates ?s1 ?s2" using Suc.prems by (simp add: dominates_def)
  from Suc.prems obtain b1 b2 where b: "balance s1 = Num b1" "balance s2 = Num b2" "b2 \<le> b1"
    by (auto simp: dominates_def isNum_iff)
  have u1: "paymentLoop p1 y i s1 =
      (if b1 \<le> 0 then ?s1 else paymentLoop p1 y (i + 1) (processPayment p1 y i ?s1))"
    using i b by (subst paymentLoop.simps) (simp add: Let_def)
  have u2: "paymentLoop p2 y i s2 =
      (if b2 \<le> 0 then ?s2 else paymentLoop p2 y (i + 1) (processPayment p2 y i ?s2))"
    using i b n by (subst paymentLoop.simps) (simp add: Let_def)
  show ?case
  proof (cases "b1 \<le> 0")
    case True
    then have "b2 \<le> 0" using b by simp
    with True u1 u2 d' show ?thesis by simp
  next
    case go1: False
    show ?thesis
    proof (cases "b2 \<le> 0")
      case True
      let ?t = "processPayment p1 y i ?s1"
      have a1: "advances ?s1 ?t"
        by (rule processPayment_advances[OF p1 r]) (use Suc.prems b go1 in \<open>simp_all add: dominates_def\<close>)
      have "advances ?t (paymentLoop p1 y (i + 1) ?t)"
        by (rule paymentLoop_advances[OF p1 r]) (use a1 in \<open>simp_all add: advances_def\<close>)
      with a1 have "advances ?s1 (paymentLoop p1 y (i + 1) ?t)" by (rule advances_trans)
      with d' have "dominates (paymentLoop p1 y (i + 1) ?t) ?s2"
        by (rule dominates_advances) (use b True in simp)
      with True go1 u1 u2 show ?thesis by simp
    next
      case go2: False
      have "dominates (processPayment p1 y i ?s1) (processPayment p2 y i ?s2)"
        by (rule processPayment_dominates[OF p1 p2 r e d'])
      moreover have "k = paymentsPerYear p1 + 1 - (i + 1)" using Suc.hyps(2) by simp
      ultimately have "dominates (paymentLoop p1 y (i + 1) (processPayment p1 y i ?s1))
          (paymentLoop p2 y (i + 1) (processPayment p2 y i ?s2))"
        by (rule Suc.hyps(1)[rotated])
      with go1 go2 u1 u2 show ?thesis by simp
    qed
  qed
qed

lemma yearBody_dominates:
  assumes p1: "adjustedPayment p1 = Num A" "interestRatePerPayment p1 = Num r" "extraPayment_p p1 = Num e1"
      "principal p1 = Num P" "annualPrepayment_p p1 = Num a"
    and p2: "adjustedPayment p2 = Num A" "interestRatePerPayment p2 = Num r" "extraPayment_p p2 = Num e2"
      "principal p2 = Num P" "annualPrepayment_p p2 = Num a"
    and n: "paymentsPerYear p2 = paymentsPerYear p1"
    and r: "0 \<le> r" and e: "e1 \<le> e2"
    and d: "dominates s1 s2"
  shows "dominates (yearBody p1 y s1) (yearBody p2 y s2)"
proof -
  let ?r1 = "s1\<lparr>yearlyPrincipalPaid := Num 0, yearlyInterestPaid := Num 0, yearlyExtraPayments := Num 0\<rparr>"
  let ?r2 = "s2\<lparr>yearlyPrincipalPaid := Num 0, yearlyInterestPaid := Num 0, yearlyExtraPayments := Num 0\<rparr>"
  have "dominates ?r1 ?r2" using d by (simp add: dominates_def)
  from paymentLoop_dominates[OF p1(1-3) p2(1-3) n r e this, of y 1]
  have l: "dominates (paymentLoop p1 y 1 ?r1) (paymentLoop p2 y 1 ?r2)" .
  then obtain b1 b2 where b: "balance (paymentLoop p1 y 1 ?r1) = Num b1"
      "balance (paymentLoop p2 y 1 ?r2) = Num b2" "b2 \<le> b1"
    by (auto simp: dominates_def isNum_iff)
  from applyAnnualPrepayment_Num[OF p1(4,5) b(1)] applyAnnualPrepayment_Num[OF p2(4,5) b(2)]
    prepayStep_mono[OF b(3), of P a] l
  show ?thesis by (simp add: yearBody_def dominates_def)
qed

lemma yearLoop_dominates:
  assumes p1: "adjustedPayment p1 = Num A" "interestRatePerPayment p1 = Num r" "extraPayment_p p1 = Num e1"
      "principal p1 = Num P" "annualPrepayment_p p1 = Num a"
    and p2: "adjustedPayment p2 = Num A" "interestRatePerPayment p2 = Num r" "extraPayment_p p2 = Num e2"
      "principal p2 = Num P" "annualPrepayment_p p2 = Num a"
    and n: "paymentsPerYear p2 = paymentsPerYear p1" "amortizationYears p2 = amortizationYears p1"
    and r: "0 \<le> r" and e: "e1 \<le> e2"
    and d: "dominates s1 s2"
  shows "dominates (yearLoop p1 y s1) (yearLoop p2 y s2)"
  using d
proof (induction "amortizationYears p1 + 1 - y" arbitrary: y s1 s2)
  case 0
  then have "\<not> y \<le> amortizationYears p1" by simp
  then show ?case using "0.prems" n by (simp add: yearLoop.simps)
next
  case (Suc k)
  then have y: "y \<le> amortizationYears p1" by simp
  let ?t1 = "yearBody p1 y s1" and ?t2 = "yearBody p2 y s2"
  have d': "dominates ?t1 ?t2"
    by (rule yearBody_dominates[OF p1 p2 n(1) r e Suc.prems])
  then obtain b1 b2 where b: "balance ?t1 = Num b1" "balance ?t2 = Num b2" "b2 \<le> b1"
    by (auto simp: dominates_def isNum_iff)
  have u1: "yearLoop p1 y s1 = (if b1 \<le> 0 then ?t1 else yearLoop p1 (y + 1) ?t1)"
    using y b by (subst yearLoop.simps) (simp add: Let_def)
  have u2: "yearLoop p2 y s2 = (if b2 \<le> 0 then ?t2 else yearLoop p2 (y + 1) ?t2)"
    using y b n by (subst yearLoop.simps) (simp add: Let_def)
  show ?case
  proof (cases "b1 \<le> 0")
    case True
    then have "b2 \<le> 0" using b by simp
    with True u1 u2 d' show ?thesis by simp
  next
    case go1: False
    show ?thesis
    proof (cases "b2 \<le> 0")
      case True
      have "advances ?t1 (yearLoop p1 (y + 1) ?t1)"
        by (rule yearLoop_advances[OF p1 r]) (use d' b go1 in \<open>simp_all add: dominates_def\<close>)
      with d' have "dominates (yearLoop p1 (y + 1) ?t1) ?t2"
        by (rule dominates_advances) (use b True in simp)
      with True go1 u1 u2 show ?thesis by simp
    next
      case go2: False
      have "k = amortizationYears p1 + 1 - (y + 1)" using Suc.hyps(2) by simp
      with d' have "dominates (yearLoop p1 (y + 1) ?t1) (yearLoop p2 (y + 1) ?t2)"
        by (rule Suc.hyps(1)[rotated])
      with go1 go2 u1 u2 show ?thesis by simp
    qed
  qed
qed


lemma js_NaN_absorbs [simp]:
  "x + NaN = NaN" "NaN + x = NaN" "x - NaN = NaN" "NaN - x = NaN" "x * NaN = NaN" "NaN * x = NaN"
  "Math_min x NaN = NaN" "Math_min NaN x = NaN"
  by (cases x; simp add: minus_jsnum_def)+

lemma processPayment_NaN:
  assumes "adjustedPayment p = NaN" "isNum (extraPayment_p p)"
  shows "balance (processPayment p y j s) = NaN"
    and "totalInterestPaid (processPayment p y j s) =
           totalInterestPaid s + balance s * interestRatePerPayment p"
    and "lastPaymentNumber (processPayment p y j s) = lastPaymentNumber s"
  using assms by (auto simp: processPayment_def Let_def minus_jsnum_def isNum_iff)

lemma paymentLoop_sameCore:
  assumes p1: "adjustedPayment p1 = NaN" "isNum (extraPayment_p p1)"
    and p2: "adjustedPayment p2 = NaN" "isNum (extraPayment_p p2)"
    and n: "paymentsPerYear p2 = paymentsPerYear p1"
      "interestRatePerPayment p2 = interestRatePerPayment p1"
    and d: "sameCore s1 s2"
  shows "sameCore (paymentLoop p1 y i s1) (paymentLoop p2 y i s2)"
  using d
proof (induction "paymentsPerYear p1 + 1 - i" arbitrary: i s1 s2)
  case 0
  then have "\<not> i \<le> paymentsPerYear p1" by simp
  then show ?case using "0.prems" n by (simp add: paymentLoop.simps)
next
  case (Suc k)
  then have i: "i \<le> paymentsPerYear p1" by simp
  let ?s1 = "s1\<lparr>lastPaymentNumber := lastPaymentNumber s1 + 1\<rparr>"
  let ?s2 = "s2\<lparr>lastPaymentNumber := lastPaymentNumber s2 + 1\<rparr>"
  have d': "sameCore ?s1 ?s2" using Suc.prems by (simp add: sameCore_def)
  have b: "balance s2 = balance s1" using Suc.prems by (simp add: sameCore_def)
  show ?case
  proof (cases "js_le (balance s1) (Num 0)")
    case True
    then show ?thesis using i n b d'
      by (subst paymentLoop.simps, subst (2) paymentLoop.simps) (simp add: Let_def)
  next
    case False
    have "sameCore (processPayment p1 y i ?s1) (processPayment p2 y i ?s2)"
      using processPayment_NaN[OF p1, of y i ?s1] processPayment_NaN[OF p2, of y i ?s2] d' n
      by (simp add: sameCore_def)
    moreover have "k = paymentsPerYear p1 + 1 - (i + 1)" using Suc.hyps(2) by simp
    ultimately have "sameCore (paymentLoop p1 y (i + 1) (processPayment p1 y i ?s1))
        (paymentLoop p2 y (i + 1) (processPayment p2 y i ?s2))"
      by (rule Suc.hyps(1)[rotated])
    then show ?thesis using False i n b
      by (subst paymentLoop.simps, subst (2) paymentLoop.simps) (simp add: Let_def)
  qed
qed

lemma yearBody_sameCore:
  assumes p1: "adjustedPayment p1 = NaN" "isNum (extraPayment_p p1)"
    and p2: "adjustedPayment p2 = NaN" "isNum (extraPayment_p p2)"
    and n: "paymentsPerYear p2 = paymentsPerYear p1"
      "interestRatePerPayment p2 = interestRatePerPayment p1"
      "principal p2 = principal p1" "annualPrepayment_p p2 = annualPrepayment_p p1"
    and d: "sameCore s1 s2"
  shows "sameCore (yearBody p1 y s1) (yearBody p2 y s2)"
proof -
  let ?r1 = "s1\<lparr>yearlyPrincipalPaid := Num 0, yearlyInterestPaid := Num 0, yearlyExtraPayments := Num 0\<rparr>"
  let ?r2 = "s2\<lparr>yearlyPrincipalPaid := Num 0, yearlyInterestPaid := Num 0, yearlyExtraPayments := Num 0\<rparr>"
  have "sameCore ?r1 ?r2" using d by (simp add: sameCore_def)
  from paymentLoop_sameCore[OF p1 p2 n(1,2) this, of y 1]
  show ?thesis using n(3,4)
    by (simp add: yearBody_def sameCore_def applyAnnualPrepayment_def Let_def)
qed

lemma yearLoop_sameCore:
  assumes p1: "adjustedPayment p1 = NaN" "isNum (extraPayment_p p1)"
    and p2: "adjustedPayment p2 = NaN" "isNum (extraPayment_p p2)"
    and n: "paymentsPerYear p2 = paymentsPerYear p1"
      "interestRatePerPayment p2 = interestRatePerPayment p1"
      "principal p2 = principal p1" "annualPrepayment_p p2 = annualPrepayment_p p1"
    and m: "amortizationYears p2 = amortizationYears p1"
    and d: "sameCore s1 s2"
  shows "sameCore (yearLoop p1 y s1) (yearLoop p2 y s2)"
  using d
proof (induction "amortizationYears p1 + 1 - y" arbitrary: y s1 s2)
  case 0
  then have "\<not> y \<le> amortizationYears p1" by simp
  then show ?case using "0.prems" m by (simp add: yearLoop.simps)
next
  case (Suc k)
  then have y: "y \<le> amortizationYears p1" by simp
  let ?t1 = "yearBody p1 y s1" and ?t2 = "yearBody p2 y s2"
  have d': "sameCore ?t1 ?t2"
    by (rule yearBody_sameCore[OF p1 p2 n Suc.prems])
  then have b: "balance ?t2 = balance ?t1" by (simp add: sameCore_def)
  show ?case
  proof (cases "js_le (balance ?t1) (Num 0)")
    case True
    then show ?thesis using y m b d'
      by (subst yearLoop.simps, subst (2) yearLoop.simps) (simp add: Let_def)
  next
    case False
    have "k = amortizationYears p1 + 1 - (y + 1)" using Suc.hyps(2) by simp
    with d' have "sameCore (yearLoop p1 (y + 1) ?t1) (yearLoop p2 (y + 1) ?t2)"
      by (rule Suc.hyps(1)[rotated])
    then show ?thesis using False y m b
      by (subst yearLoop.simps, subst (2) yearLoop.simps) (simp add: Let_def)
  qed
qed

lemma extraPayment_update_simps [simp]:
  "mortgageAmount (s\<lparr>extraPayment := e\<rparr>) = mortgageAmount s"
  "paymentsPerYearOf (s\<lparr>extraPayment := e\<rparr>) = paymentsPerYearOf s"
  "principalOf (s\<lparr>extraPayment := e\<rparr>) = principalOf s"
  "periodicRate (s\<lparr>extraPayment := e\<rparr>) = periodicRate s"
  by (simp_all add: mortgageAmount_def paymentsPerYearOf_def principalOf_def periodicRate_def)

lemma paymentAmount_extraPayment_update [simp]:
  "paymentAmount (s\<lparr>extraPayment := e\<rparr>) = paymentAmount s"
  by (simp add: paymentAmount_def Let_def cong: if_cong)

lemma monthlyEquivalent_Num:
  assumes "0 < interestRate s" "0 < amortizationPeriod s"
  shows "monthlyEquivalent s =
    Num (annuity (principalOf s) (interestRate s / 100 / 12) (amortizationPeriod s * 12))"
proof -
  have "1 < (1 + interestRate s / 100 / real (12::nat)) ^ (amortizationPeriod s * 12)"
    by (rule compound_gt_one) (use assms in simp_all)
  then have "(1 + interestRate s / 100 / 12) ^ (amortizationPeriod s * 12) \<noteq> 1" by simp
  from annuity_js_Num[OF this, of "principalOf s"] show ?thesis
    by (simp add: monthlyEquivalent_def mortgageAmount_Num)
qed

lemma paymentAmount_isNum:
  assumes "0 \<le> interestRate s" "0 < amortizationPeriod s"
    and "\<not> (interestRate s = 0 \<and>
      (paymentFrequency s = ''accelerated_biweekly'' \<or> paymentFrequency s = ''accelerated_weekly''))"
  shows "isNum (paymentAmount s)"
proof (cases "paymentFrequency s = ''accelerated_biweekly'' \<or> paymentFrequency s = ''accelerated_weekly''")
  case True
  then have "0 < interestRate s" using assms by auto
  from monthlyEquivalent_Num[OF this assms(2)] True show ?thesis
    by (auto simp: paymentAmount_accelerated)
next
  case False
  then have f: "paymentFrequency s \<noteq> ''accelerated_biweekly''" "paymentFrequency s \<noteq> ''accelerated_weekly''"
    by simp_all
  show ?thesis
  proof (cases "interestRate s = 0")
    case True
    then show ?thesis using paymentAmount_plain[OF f] assms(2)
      by (simp add: mortgageAmount_Num paymentCount_def)
  next
    case False
    then have "0 < interestRate s" using assms by simp
    from compound_ne_one[OF this assms(2)] have "(1 + periodicRate s) ^ paymentCount s \<noteq> 1" by simp
    from annuity_js_Num[OF this] False show ?thesis
      using paymentAmount_plain[OF f] by (simp add: mortgageAmount_Num)
  qed
qed

lemma paymentAmount_NaN:
  assumes "interestRate s = 0"
    "paymentFrequency s = ''accelerated_biweekly'' \<or> paymentFrequency s = ''accelerated_weekly''"
  shows "paymentAmount s = NaN"
  using assms
  by (auto simp: paymentAmount_accelerated monthlyEquivalent_def mortgageAmount_Num
      annuity_js_zero_rate)


lemma scenarioParams_extraPayment [simp]:
  "amortizationYears (scenarioParams (s\<lparr>extraPayment := e\<rparr>)) = amortizationPeriod s"
  "extraPayment_p (scenarioParams (s\<lparr>extraPayment := e\<rparr>)) = Num e"
  "annualPrepayment_p (scenarioParams (s\<lparr>extraPayment := e\<rparr>)) = Num (annualPrepayment s)"
  "adjustedPayment (scenarioParams (s\<lparr>extraPayment := e\<rparr>)) =
     paymentAmount s * Num (1 + paymentIncrease s / 100)"
  by simp_all

lemma js_le_refl_or_NaN: "js_le x x \<or> x = NaN"
  by (cases x) simp_all

text \<open>
  Monotonicity in the extra payment. For two scenarios that differ only in \<open>extraPayment\<close>,
  \<open>e1 \<le> e2\<close>, with a non-negative rate: the effective amortization for \<open>e2\<close> is at most that
  for \<open>e1\<close>, and so is the lifetime interest whenever the payment is a number. In the
  interest-free accelerated scenario both interests are \<open>NaN\<close>, which no \<open>\<le>\<close> relates.
\<close>

theorem extraPayment_never_increases_interest_or_payoff_time:
  "0 \<le> interestRate s \<and> e1 \<le> e2 \<longrightarrow>
     (js_le (totalInterestLifetime (calculateMortgage (s\<lparr>extraPayment := e2\<rparr>)))
            (totalInterestLifetime (calculateMortgage (s\<lparr>extraPayment := e1\<rparr>))) \<or>
      interestRate s = 0 \<and>
      (paymentFrequency s = ''accelerated_biweekly'' \<or> paymentFrequency s = ''accelerated_weekly'') \<and>
      totalInterestLifetime (calculateMortgage (s\<lparr>extraPayment := e2\<rparr>)) = NaN \<and>
      totalInterestLifetime (calculateMortgage (s\<lparr>extraPayment := e1\<rparr>)) = NaN) \<and>
     js_le (effectiveAmortization (calculateMortgage (s\<lparr>extraPayment := e2\<rparr>)))
           (effectiveAmortization (calculateMortgage (s\<lparr>extraPayment := e1\<rparr>)))"
proof (intro impI, elim conjE)
  assume r: "0 \<le> interestRate s" and e: "e1 \<le> e2"
  let ?s1 = "s\<lparr>extraPayment := e1\<rparr>" and ?s2 = "s\<lparr>extraPayment := e2\<rparr>"
  let ?p1 = "scenarioParams ?s1" and ?p2 = "scenarioParams ?s2"
  let ?f1 = "scenarioRun ?s1" and ?f2 = "scenarioRun ?s2"
  let ?acc = "paymentFrequency s = ''accelerated_biweekly'' \<or> paymentFrequency s = ''accelerated_weekly''"
  have pr: "0 \<le> periodicRate s" using r by (simp add: periodicRate_def)
  have ea: "js_le (effectiveAmortization (calculateMortgage ?s2))
                  (effectiveAmortization (calculateMortgage ?s1))"
    if "lastPaymentNumber ?f2 \<le> lastPaymentNumber ?f1"
    using that by (simp add: calculateMortgage_run divide_right_mono)
  have til: "totalInterestLifetime (calculateMortgage ?s2) = totalInterestPaid ?f2"
    "totalInterestLifetime (calculateMortgage ?s1) = totalInterestPaid ?f1"
    by (simp_all add: calculateMortgage_run)
  consider (num) "isNum (paymentAmount s)"
    | (none) "amortizationPeriod s = 0"
    | (nan) "\<not> isNum (paymentAmount s)" "0 < amortizationPeriod s"
    by blast
  then show "(js_le (totalInterestLifetime (calculateMortgage ?s2))
            (totalInterestLifetime (calculateMortgage ?s1)) \<or>
      interestRate s = 0 \<and> ?acc \<and>
      totalInterestLifetime (calculateMortgage ?s2) = NaN \<and>
      totalInterestLifetime (calculateMortgage ?s1) = NaN) \<and>
     js_le (effectiveAmortization (calculateMortgage ?s2))
           (effectiveAmortization (calculateMortgage ?s1))"
  proof cases
    case num
    then obtain pay where pay: "paymentAmount s = Num pay" by (auto simp: isNum_iff)
    have "dominates (yearLoop ?p1 1 (initialVars (mortgageAmount s)))
                    (yearLoop ?p2 1 (initialVars (mortgageAmount s)))"
      by (rule yearLoop_dominates[where A = "pay * (1 + paymentIncrease s / 100)"
            and r = "periodicRate s" and ?e1.0 = e1 and ?e2.0 = e2
            and P = "principalOf s" and a = "annualPrepayment s"])
         (simp_all add: pay pr e dominates_def mortgageAmount_Num)
    then have "dominates ?f1 ?f2" by (simp add: scenarioRun_yearLoop)
    then have "js_le (totalInterestPaid ?f2) (totalInterestPaid ?f1)"
      "lastPaymentNumber ?f2 \<le> lastPaymentNumber ?f1"
      by (auto simp: dominates_def isNum_iff)
    then show ?thesis using ea til by simp
  next
    case none
    then have "?f1 = initialVars (mortgageAmount s)" "?f2 = initialVars (mortgageAmount s)"
      by (simp_all add: scenarioRun_yearLoop yearLoop.simps)
    then show ?thesis using ea til by simp
  next
    case nan
    have z: "interestRate s = 0 \<and> ?acc"
      using paymentAmount_isNum[OF r nan(2)] nan(1) by blast
    then have pa: "paymentAmount s = NaN" by (simp add: paymentAmount_NaN)
    have "sameCore (yearLoop ?p1 1 (initialVars (mortgageAmount s)))
                   (yearLoop ?p2 1 (initialVars (mortgageAmount s)))"
      by (rule yearLoop_sameCore) (simp_all add: pa sameCore_def)
    then have c: "sameCore ?f1 ?f2" by (simp add: scenarioRun_yearLoop)
    then have "lastPaymentNumber ?f2 \<le> lastPaymentNumber ?f1"
      and eq: "totalInterestPaid ?f2 = totalInterestPaid ?f1"
      by (simp_all add: sameCore_def)
    then show ?thesis
      using ea til z js_le_refl_or_NaN[of "totalInterestPaid ?f1"] by auto
  qed
qed

section \<open>The end of the schedule\<close>

lemma processPayment_NaN_principal:
  assumes "adjustedPayment p = NaN" "isNum (extraPayment_p p)"
  shows "yearlyPrincipalPaid (processPayment p y j s) = NaN"
  using assms by (auto simp: processPayment_def Let_def isNum_iff)

lemma paymentLoop_NaN:
  assumes p: "adjustedPayment p = NaN" "isNum (extraPayment_p p)" "2 \<le> paymentsPerYear p"
    and s: "\<not> js_le (balance st) (Num 0)"
  shows "balance (paymentLoop p y 1 st) = NaN \<and>
         yearlyPrincipalPaid (paymentLoop p y 1 st) = NaN \<and>
         totalInterestPaid (paymentLoop p y 1 st) = NaN \<and>
         yearlySchedule (paymentLoop p y 1 st) = yearlySchedule st"
proof (rule paymentLoop_rule[where I = "nanYear st"])
  show "nanYear st 1 st" using s by (simp add: nanYear_def)
next
  fix j :: nat and s :: sched_vars
  assume n: "nanYear st j s"
  let ?s1 = "s\<lparr>lastPaymentNumber := lastPaymentNumber s + 1\<rparr>"
  show "nanYear st (j + 1) (processPayment p y j ?s1)"
    using n processPayment_NaN[OF p(1,2), of y j ?s1] processPayment_NaN_principal[OF p(1,2), of y j ?s1]
    by (auto simp: nanYear_def)
next
  fix j :: nat and s :: sched_vars
  assume "nanYear st j s" "js_le (balance s) (Num 0)"
  then have False by (auto simp: nanYear_def)
  then show "balance (s\<lparr>lastPaymentNumber := lastPaymentNumber s + 1\<rparr>) = NaN \<and>
         yearlyPrincipalPaid (s\<lparr>lastPaymentNumber := lastPaymentNumber s + 1\<rparr>) = NaN \<and>
         totalInterestPaid (s\<lparr>lastPaymentNumber := lastPaymentNumber s + 1\<rparr>) = NaN \<and>
         yearlySchedule (s\<lparr>lastPaymentNumber := lastPaymentNumber s + 1\<rparr>) = yearlySchedule st" ..
next
  fix j :: nat and s :: sched_vars
  assume "nanYear st j s" "paymentsPerYear p < j"
  then show "balance s = NaN \<and> yearlyPrincipalPaid s = NaN \<and> totalInterestPaid s = NaN \<and>
         yearlySchedule s = yearlySchedule st"
    using p(3) by (auto simp: nanYear_def)
qed

lemma yearBody_NaN:
  assumes p: "adjustedPayment p = NaN" "isNum (extraPayment_p p)" "2 \<le> paymentsPerYear p"
    and s: "\<not> js_le (balance st) (Num 0)"
  shows "balance (yearBody p y st) = NaN \<and> totalInterestPaid (yearBody p y st) = NaN \<and>
    (\<exists>it. yearlySchedule (yearBody p y st) = yearlySchedule st @ [it] \<and> principalPaid it = NaN)"
proof -
  let ?s0 = "st\<lparr>yearlyPrincipalPaid := Num 0, yearlyInterestPaid := Num 0, yearlyExtraPayments := Num 0\<rparr>"
  have "\<not> js_le (balance ?s0) (Num 0)" using s by simp
  from paymentLoop_NaN[OF p this, of y] show ?thesis
    by (simp add: yearBody_def applyAnnualPrepayment_def pushYear_def)
qed

lemma yearLoop_NaN:
  assumes p: "adjustedPayment p = NaN" "isNum (extraPayment_p p)" "2 \<le> paymentsPerYear p"
    and s: "\<not> js_le (balance st) (Num 0)" "yearlySchedule st = []"
  shows "length (yearlySchedule (yearLoop p 1 st)) = amortizationYears p \<and>
    (\<forall>it \<in> set (yearlySchedule (yearLoop p 1 st)). principalPaid it = NaN) \<and>
    (1 \<le> amortizationYears p \<longrightarrow> totalInterestPaid (yearLoop p 1 st) = NaN)"
proof (rule yearLoop_rule[where I = "nanRun p"])
  show "nanRun p 1 st" using s by (simp add: nanRun_def)
next
  fix j :: nat and s :: sched_vars
  assume n: "nanRun p j s" and j: "j \<le> amortizationYears p"
  from n have "\<not> js_le (balance s) (Num 0)" by (simp add: nanRun_def)
  from yearBody_NaN[OF p this, of j] n j
  show "nanRun p (j + 1) (yearBody p j s)" by (auto simp: nanRun_def)
  assume "js_le (balance (yearBody p j s)) (Num 0)"
  with yearBody_NaN[OF p \<open>\<not> js_le (balance s) (Num 0)\<close>, of j] have False by simp
  then show "length (yearlySchedule (yearBody p j s)) = amortizationYears p \<and>
    (\<forall>it \<in> set (yearlySchedule (yearBody p j s)). principalPaid it = NaN) \<and>
    (1 \<le> amortizationYears p \<longrightarrow> totalInterestPaid (yearBody p j s) = NaN)" ..
next
  fix j :: nat and s :: sched_vars
  assume "nanRun p j s" "amortizationYears p < j"
  then show "length (yearlySchedule s) = amortizationYears p \<and>
    (\<forall>it \<in> set (yearlySchedule s). principalPaid it = NaN) \<and>
    (1 \<le> amortizationYears p \<longrightarrow> totalInterestPaid s = NaN)"
    by (auto simp: nanRun_def)
qed

lemma sumPrincipalPaid_NaN:
  "xs \<noteq> [] \<Longrightarrow> \<forall>it \<in> set xs. principalPaid it = NaN \<Longrightarrow> sumPrincipalPaid xs = NaN"
  by (cases xs) simp_all

lemma zero_rate_accelerated_run:
  assumes "interestRate s = 0"
    "paymentFrequency s = ''accelerated_biweekly'' \<or> paymentFrequency s = ''accelerated_weekly''"
    "0 < principalOf s" "0 < amortizationPeriod s"
  shows "totalInterestPaid (scenarioRun s) = NaN"
    and "length (yearlySchedule (scenarioRun s)) = amortizationPeriod s"
    and "sumPrincipalPaid (yearlySchedule (scenarioRun s)) = NaN"
proof -
  have pa: "paymentAmount s = NaN" using assms(1,2) by (rule paymentAmount_NaN)
  have pp: "2 \<le> paymentsPerYearOf s" by (simp add: paymentsPerYearOf_cases)
  have *: "length (yearlySchedule (scenarioRun s)) = amortizationYears (scenarioParams s) \<and>
    (\<forall>it \<in> set (yearlySchedule (scenarioRun s)). principalPaid it = NaN) \<and>
    (1 \<le> amortizationYears (scenarioParams s) \<longrightarrow> totalInterestPaid (scenarioRun s) = NaN)"
    unfolding scenarioRun_yearLoop
    by (rule yearLoop_NaN) (use assms(3) pa pp in \<open>simp_all add: mortgageAmount_Num\<close>)
  then show "totalInterestPaid (scenarioRun s) = NaN"
    and l: "length (yearlySchedule (scenarioRun s)) = amortizationPeriod s"
    using assms(4) by simp_all
  from l assms(4) have "yearlySchedule (scenarioRun s) \<noteq> []" by auto
  with * show "sumPrincipalPaid (yearlySchedule (scenarioRun s)) = NaN"
    by (simp add: sumPrincipalPaid_NaN)
qed

lemma refBalance_0:
  assumes "0 \<le> r" "0 < n"
  shows "refBalance P r n 0 = P"
proof (cases "r = 0")
  case True
  then show ?thesis by (simp add: refBalance_def)
next
  case False
  then have "1 < 1 + r" using assms by simp
  then have "1 < (1 + r) ^ n" using assms(2) by (rule one_less_power)
  then show ?thesis using False by (simp add: refBalance_def)
qed

lemma refBalance_n:
  assumes "0 < n"
  shows "refBalance P r n n = 0"
  using assms by (simp add: refBalance_def)

lemma refBalance_step:
  assumes "0 \<le> r" "0 < n"
  shows "refBalance P r n (Suc k) = refBalance P r n k * (1 + r) - basePayment P r n"
proof (cases "r = 0")
  case True
  then show ?thesis by (simp add: refBalance_def basePayment_def algebra_simps add_divide_distrib)
next
  case False
  then have "1 < 1 + r" using assms by simp
  then have "1 < (1 + r) ^ n" using assms(2) by (rule one_less_power)
  then have d: "(1 + r) ^ n - 1 \<noteq> 0" by simp
  define q where "q = (1 + r) ^ n"
  define c where "c = (1 + r) ^ k"
  have "P * (q - c) / (q - 1) * (1 + r) - P * (r * q) / (q - 1) =
      (P * (q - c) * (1 + r) - P * (r * q)) / (q - 1)"
    by (simp add: diff_divide_distrib)
  also have "P * (q - c) * (1 + r) - P * (r * q) = P * (q - c * (1 + r))"
    by (simp add: algebra_simps)
  finally have "P * (q - c * (1 + r)) / (q - 1) =
      P * (q - c) / (q - 1) * (1 + r) - P * (r * q) / (q - 1)" by simp
  then show ?thesis using False
    by (simp add: refBalance_def basePayment_def annuity_def q_def c_def mult.commute)
qed

lemma refBalance_nonneg:
  assumes "0 \<le> r" "0 < n" "0 \<le> P" "k \<le> n"
  shows "0 \<le> refBalance P r n k"
proof (cases "r = 0")
  case True
  have "real k * (P / real n) \<le> real n * (P / real n)"
    using assms by (intro mult_right_mono) simp_all
  then show ?thesis using True assms by (simp add: refBalance_def)
next
  case False
  then have r: "1 < 1 + r" using assms by simp
  then have "1 < (1 + r) ^ n" using assms(2) by (rule one_less_power)
  moreover have "(1 + r) ^ k \<le> (1 + r) ^ n" using r assms(4) by (simp add: power_increasing)
  ultimately show ?thesis using False assms(3) by (simp add: refBalance_def)
qed

lemma basePayment_nonneg:
  assumes "0 \<le> r" "0 < n" "0 \<le> P"
  shows "0 \<le> basePayment P r n"
proof (cases "r = 0")
  case True
  then show ?thesis using assms by (simp add: basePayment_def)
next
  case False
  then have r: "1 < 1 + r" using assms by simp
  then have "1 < (1 + r) ^ n" using assms(2) by (rule one_less_power)
  then show ?thesis using False assms by (simp add: basePayment_def annuity_def)
qed

lemma payStep_le:
  assumes "0 \<le> r" "b \<le> c" "B \<le> A" "0 \<le> c * (1 + r) - B"
  shows "payStep A r e b \<le> c * (1 + r) - B"
proof -
  have "b * r \<le> c * r" using assms by (simp add: mult_right_mono)
  then have "b + b * r - A \<le> c * (1 + r) - B" using assms by (simp add: algebra_simps)
  then show ?thesis using assms(4)
    by (simp add: payStep_def Let_def min_def)
qed

lemma prepayStep_le: "0 \<le> P \<Longrightarrow> prepayStep P a b \<le> b"
  by (simp add: prepayStep_def min_def)


lemma paymentLoop_withinRef:
  assumes p: "adjustedPayment p = Num A" "interestRatePerPayment p = Num r" "extraPayment_p p = Num e"
    and r: "0 \<le> r" and n: "0 < n" and P: "0 \<le> P0" and BA: "basePayment P0 r n \<le> A"
    and y: "y * paymentsPerYear p \<le> n" "1 \<le> y"
    and s: "withinRef P0 r n ((y - 1) * paymentsPerYear p) st"
  shows "withinRef P0 r n (y * paymentsPerYear p) (paymentLoop p y 1 st)"
proof (rule paymentLoop_rule[where I = "\<lambda>j s. 1 \<le> j \<and> j \<le> paymentsPerYear p + 1 \<and>
      withinRef P0 r n ((y - 1) * paymentsPerYear p + (j - 1)) s"])
  show "1 \<le> (1::nat) \<and> 1 \<le> paymentsPerYear p + 1 \<and>
      withinRef P0 r n ((y - 1) * paymentsPerYear p + (1 - 1)) st"
    using s by simp
next
  fix j :: nat and s :: sched_vars
  assume I: "1 \<le> j \<and> j \<le> paymentsPerYear p + 1 \<and>
      withinRef P0 r n ((y - 1) * paymentsPerYear p + (j - 1)) s"
    and j: "j \<le> paymentsPerYear p"
  let ?k = "(y - 1) * paymentsPerYear p + (j - 1)"
  let ?s1 = "s\<lparr>lastPaymentNumber := lastPaymentNumber s + 1\<rparr>"
  have yN: "(y - 1) * paymentsPerYear p + paymentsPerYear p = y * paymentsPerYear p"
    using y(2) by (cases y) simp_all
  have k1: "Suc ?k \<le> n" using I j y(1) yN by linarith
  from I obtain b where b: "balance s = Num b" "0 \<le> b" "b \<le> refBalance P0 r n ?k"
    by (auto simp: withinRef_def isNum_iff)
  have st: "refBalance P0 r n (Suc ?k) = refBalance P0 r n ?k * (1 + r) - basePayment P0 r n"
    by (rule refBalance_step[OF r n])
  have nn: "0 \<le> refBalance P0 r n (Suc ?k)" by (rule refBalance_nonneg[OF r n P k1])
  have "payStep A r e b \<le> refBalance P0 r n ?k * (1 + r) - basePayment P0 r n"
    by (rule payStep_le[OF r b(3) BA]) (use nn st in simp)
  then have le: "payStep A r e b \<le> refBalance P0 r n (Suc ?k)" using st by simp
  have "balance ?s1 = Num b" using b by simp
  from processPayment_Num(1)[OF p this, of y j] le payStep_nonneg[of A r e b]
  have "withinRef P0 r n (Suc ?k) (processPayment p y j ?s1)" by (simp add: withinRef_def)
  moreover have "Suc ?k = (y - 1) * paymentsPerYear p + (j + 1 - 1)" using I by simp
  ultimately show "1 \<le> j + 1 \<and> j + 1 \<le> paymentsPerYear p + 1 \<and>
      withinRef P0 r n ((y - 1) * paymentsPerYear p + (j + 1 - 1)) (processPayment p y j ?s1)"
    using j by simp
  assume "js_le (balance s) (Num 0)"
  then have "b = 0" using b by simp
  moreover have "0 \<le> refBalance P0 r n (y * paymentsPerYear p)"
    by (rule refBalance_nonneg[OF r n P y(1)])
  ultimately show "withinRef P0 r n (y * paymentsPerYear p) ?s1"
    using b by (simp add: withinRef_def)
next
  fix j :: nat and s :: sched_vars
  assume I: "1 \<le> j \<and> j \<le> paymentsPerYear p + 1 \<and>
      withinRef P0 r n ((y - 1) * paymentsPerYear p + (j - 1)) s"
    and j: "paymentsPerYear p < j"
  have yN: "(y - 1) * paymentsPerYear p + paymentsPerYear p = y * paymentsPerYear p"
    using y(2) by (cases y) simp_all
  from I j have "j - 1 = paymentsPerYear p" by linarith
  with I yN show "withinRef P0 r n (y * paymentsPerYear p) s" by simp
qed

lemma yearBody_withinRef:
  assumes p: "adjustedPayment p = Num A" "interestRatePerPayment p = Num r" "extraPayment_p p = Num e"
      "principal p = Num P0" "annualPrepayment_p p = Num a"
    and r: "0 \<le> r" and n: "0 < n" and P: "0 \<le> P0" and BA: "basePayment P0 r n \<le> A"
    and y: "y * paymentsPerYear p \<le> n" "1 \<le> y"
    and s: "withinRef P0 r n ((y - 1) * paymentsPerYear p) st"
  shows "withinRef P0 r n (y * paymentsPerYear p) (yearBody p y st)"
proof -
  let ?s0 = "st\<lparr>yearlyPrincipalPaid := Num 0, yearlyInterestPaid := Num 0, yearlyExtraPayments := Num 0\<rparr>"
  have "withinRef P0 r n ((y - 1) * paymentsPerYear p) ?s0" using s by (simp add: withinRef_def)
  from paymentLoop_withinRef[OF p(1-3) r n P BA y this]
  obtain b where b: "balance (paymentLoop p y 1 ?s0) = Num b" "0 \<le> b"
      "b \<le> refBalance P0 r n (y * paymentsPerYear p)"
    by (auto simp: withinRef_def isNum_iff)
  from applyAnnualPrepayment_Num(1)[OF p(4,5) b(1)] prepayStep_nonneg[OF b(2), of P0 a]
    prepayStep_le[OF P, of a b] b(3)
  show ?thesis by (simp add: yearBody_def withinRef_def)
qed

lemma yearLoop_pays_off:
  assumes p: "adjustedPayment p = Num A" "interestRatePerPayment p = Num r" "extraPayment_p p = Num e"
      "principal p = Num P0" "annualPrepayment_p p = Num a"
    and r: "0 \<le> r" and P: "0 \<le> P0"
    and n: "0 < amortizationYears p" "0 < paymentsPerYear p"
    and BA: "basePayment P0 r (amortizationYears p * paymentsPerYear p) \<le> A"
    and s: "balance st = Num P0"
  shows "balance (yearLoop p 1 st) = Num 0"
proof (rule yearLoop_rule[where I = "\<lambda>y s. 1 \<le> y \<and> y \<le> amortizationYears p + 1 \<and>
      withinRef P0 r (amortizationYears p * paymentsPerYear p) ((y - 1) * paymentsPerYear p) s"])
  let ?n = "amortizationYears p * paymentsPerYear p"
  have n0: "0 < ?n" using n by simp
  show "1 \<le> (1::nat) \<and> 1 \<le> amortizationYears p + 1 \<and>
      withinRef P0 r ?n ((1 - 1) * paymentsPerYear p) st"
    using s P refBalance_0[OF r n0, of P0] by (simp add: withinRef_def)
  fix j :: nat and s :: sched_vars
  assume I: "1 \<le> j \<and> j \<le> amortizationYears p + 1 \<and>
      withinRef P0 r ?n ((j - 1) * paymentsPerYear p) s"
  {
    assume j: "j \<le> amortizationYears p"
    then have "j * paymentsPerYear p \<le> ?n" by simp
    from yearBody_withinRef[OF p r n0 P BA this, of s] I
    have w: "withinRef P0 r ?n (j * paymentsPerYear p) (yearBody p j s)" by simp
    then show "1 \<le> j + 1 \<and> j + 1 \<le> amortizationYears p + 1 \<and>
      withinRef P0 r ?n ((j + 1 - 1) * paymentsPerYear p) (yearBody p j s)"
      using j by simp
    assume "js_le (balance (yearBody p j s)) (Num 0)"
    with w show "balance (yearBody p j s) = Num 0"
      by (auto simp: withinRef_def isNum_iff)
  }
  assume "amortizationYears p < j"
  with I have "j - 1 = amortizationYears p" by linarith
  with I refBalance_n[OF n0, of P0 r] show "balance s = Num 0"
    by (auto simp: withinRef_def isNum_iff)
qed


lemma paymentAmount_covers_basePayment:
  assumes P: "0 \<le> principalOf s" and r: "0 \<le> interestRate s" and y: "0 < amortizationPeriod s"
    and ok: "\<not> (interestRate s = 0 \<and>
      (paymentFrequency s = ''accelerated_biweekly'' \<or> paymentFrequency s = ''accelerated_weekly''))"
  shows "\<exists>pay. paymentAmount s = Num pay \<and>
    basePayment (principalOf s) (periodicRate s) (paymentCount s) \<le> pay"
proof (cases "paymentFrequency s = ''accelerated_biweekly'' \<or> paymentFrequency s = ''accelerated_weekly''")
  case True
  then have r0: "0 < interestRate s" using ok r by auto
  then have pr: "periodicRate s \<noteq> 0" by (simp add: periodicRate_def)
  show ?thesis
  proof (cases "principalOf s = 0")
    case zero: True
    from monthlyEquivalent_Num[OF r0 y] True zero
    have "paymentAmount s = Num 0" by (auto simp: paymentAmount_accelerated annuity_def)
    then show ?thesis using pr zero by (simp add: basePayment_def annuity_def)
  next
    case False
    then have "0 < principalOf s" using P by simp
    from accelerated_exceeds_periodic[OF True this r0 y] pr show ?thesis
      by (auto simp: basePayment_def)
  qed
next
  case False
  then have f: "paymentFrequency s \<noteq> ''accelerated_biweekly''" "paymentFrequency s \<noteq> ''accelerated_weekly''"
    by simp_all
  show ?thesis
  proof (cases "interestRate s = 0")
    case True
    then show ?thesis using paymentAmount_plain[OF f] y
      by (simp add: mortgageAmount_Num paymentCount_def basePayment_def periodicRate_def)
  next
    case False
    then have r0: "0 < interestRate s" using r by simp
    then have pr: "periodicRate s \<noteq> 0" by (simp add: periodicRate_def)
    from compound_ne_one[OF r0 y] have "(1 + periodicRate s) ^ paymentCount s \<noteq> 1" by simp
    from annuity_js_Num[OF this] False pr show ?thesis
      using paymentAmount_plain[OF f] by (simp add: mortgageAmount_Num basePayment_def)
  qed
qed

lemma scenario_pays_off:
  assumes P: "0 \<le> principalOf s" and r: "0 \<le> interestRate s" and y: "0 < amortizationPeriod s"
    and i: "0 \<le> paymentIncrease s"
    and ok: "\<not> (interestRate s = 0 \<and>
      (paymentFrequency s = ''accelerated_biweekly'' \<or> paymentFrequency s = ''accelerated_weekly''))"
  shows "balance (scenarioRun s) = Num 0"
proof -
  obtain pay where pay: "paymentAmount s = Num pay"
      "basePayment (principalOf s) (periodicRate s) (paymentCount s) \<le> pay"
    using paymentAmount_covers_basePayment[OF P r y ok] by blast
  have pr: "0 \<le> periodicRate s" using r by (simp add: periodicRate_def)
  have n: "0 < paymentCount s" using y by (simp add: paymentCount_def)
  have "0 \<le> basePayment (principalOf s) (periodicRate s) (paymentCount s)"
    by (rule basePayment_nonneg[OF pr n P])
  then have "0 \<le> pay" using pay by simp
  then have "pay * 1 \<le> pay * (1 + paymentIncrease s / 100)"
    using i by (intro mult_left_mono) simp_all
  then have A: "basePayment (principalOf s) (periodicRate s) (paymentCount s) \<le>
      pay * (1 + paymentIncrease s / 100)" using pay by simp
  show ?thesis unfolding scenarioRun_yearLoop
    by (rule yearLoop_pays_off[where A = "pay * (1 + paymentIncrease s / 100)"
          and r = "periodicRate s" and e = "extraPayment s" and ?P0.0 = "principalOf s"
          and a = "annualPrepayment s"])
       (use pay pr P y A in \<open>simp_all add: mortgageAmount_Num paymentCount_def\<close>)
qed

lemma lastBalance_sum:
  "balancesReconcile b0 xs \<Longrightarrow> lastBalance b0 xs = b0 - sumPrincipalPaid xs"
proof (induction xs arbitrary: b0)
  case Nil
  show ?case by (simp add: lastBalance_def)
next
  case (Cons x xs)
  have "endingBalance x = b0 - principalPaid x \<and> balancesReconcile (endingBalance x) xs"
    using Cons.prems unfolding balancesReconcile.simps .
  then have e: "endingBalance x = b0 - principalPaid x"
    and rc: "balancesReconcile (endingBalance x) xs" by blast+
  have "lastBalance b0 (x # xs) = lastBalance (endingBalance x) xs"
    by (simp add: lastBalance_def)
  also have "\<dots> = endingBalance x - sumPrincipalPaid xs" by (rule Cons.IH[OF rc])
  also have "\<dots> = b0 - (principalPaid x + sumPrincipalPaid xs)"
    by (simp only: e js_sub_sub)
  finally show ?case by simp
qed

lemma js_sub_eq_zero: "Num a - x = Num 0 \<Longrightarrow> x = Num a"
  by (cases x) (simp_all add: minus_jsnum_def)


lemma yearLoop_schedule_end:
  assumes "yearlySchedule st = []"
  shows "length (yearlySchedule (yearLoop p 1 st)) = amortizationYears p \<or>
    yearlySchedule (yearLoop p 1 st) \<noteq> [] \<and>
    js_le (endingBalance (last (yearlySchedule (yearLoop p 1 st)))) (Num 0)"
proof (rule yearLoop_rule[where I = "\<lambda>y s. length (yearlySchedule s) + 1 = y \<and> y \<le> amortizationYears p + 1"])
  show "length (yearlySchedule st) + 1 = 1 \<and> 1 \<le> amortizationYears p + 1"
    using assms by simp
next
  fix j :: nat and s :: sched_vars
  assume I: "length (yearlySchedule s) + 1 = j \<and> j \<le> amortizationYears p + 1"
    and j: "j \<le> amortizationYears p"
  have l: "length (yearlySchedule (yearBody p j s)) = length (yearlySchedule s) + 1"
    using yearBody_reconcile[of p j s] by (metis length_append_singleton Suc_eq_plus1)
  with I j show "length (yearlySchedule (yearBody p j s)) + 1 = j + 1 \<and> j + 1 \<le> amortizationYears p + 1"
    by simp
  assume "js_le (balance (yearBody p j s)) (Num 0)"
  moreover have "yearlySchedule (yearBody p j s) \<noteq> []" using l by auto
  ultimately show "length (yearlySchedule (yearBody p j s)) = amortizationYears p \<or>
    yearlySchedule (yearBody p j s) \<noteq> [] \<and>
    js_le (endingBalance (last (yearlySchedule (yearBody p j s)))) (Num 0)"
    using yearBody_reconcile[of p j s] by simp
next
  fix j :: nat and s :: sched_vars
  assume "length (yearlySchedule s) + 1 = j \<and> j \<le> amortizationYears p + 1"
    "amortizationYears p < j"
  then have "length (yearlySchedule s) = amortizationYears p" by linarith
  then show "length (yearlySchedule s) = amortizationYears p \<or>
    yearlySchedule s \<noteq> [] \<and> js_le (endingBalance (last (yearlySchedule s))) (Num 0)" ..
qed


lemma yearLoop_lastBalance:
  assumes "balancesReconcile b0 (yearlySchedule st)" "balance st = lastBalance b0 (yearlySchedule st)"
  shows "balance (yearLoop p y st) = lastBalance b0 (yearlySchedule (yearLoop p y st))"
proof (rule yearLoop_rule
    [where I = "\<lambda>j s. balancesReconcile b0 (yearlySchedule s) \<and> balance s = lastBalance b0 (yearlySchedule s)"])
  show "balancesReconcile b0 (yearlySchedule st) \<and> balance st = lastBalance b0 (yearlySchedule st)"
    using assms by simp
next
  fix j :: nat and s :: sched_vars
  assume I: "balancesReconcile b0 (yearlySchedule s) \<and> balance s = lastBalance b0 (yearlySchedule s)"
  have *: "balancesReconcile b0 (yearlySchedule (yearBody p j s)) \<and>
        balance (yearBody p j s) = lastBalance b0 (yearlySchedule (yearBody p j s))"
    using yearBody_reconcile[of p j s] I
    by (metis balancesReconcile_snoc lastBalance_def snoc_eq_iff_butlast)
  show "balancesReconcile b0 (yearlySchedule (yearBody p j s)) \<and>
        balance (yearBody p j s) = lastBalance b0 (yearlySchedule (yearBody p j s))"
    by (rule *)
  show "balance (yearBody p j s) = lastBalance b0 (yearlySchedule (yearBody p j s))"
    using * by simp
  show "balance s = lastBalance b0 (yearlySchedule s)" using I by simp
qed

lemma schedule_sum:
  "balance (scenarioRun s) = mortgageAmount s - sumPrincipalPaid (yearlySchedule (scenarioRun s))"
proof -
  have "balancesReconcile (mortgageAmount s) (yearlySchedule (scenarioRun s))"
    unfolding scenarioRun_yearLoop by (rule yearLoop_reconcile) (simp_all add: lastBalance_def)
  from lastBalance_sum[OF this] show ?thesis
    unfolding scenarioRun_yearLoop
    by (subst yearLoop_lastBalance[where ?b0.0 = "mortgageAmount s"]) (simp_all add: lastBalance_def)
qed

text \<open>
  Every schedule ends in one of the two ways the specification names: it has exactly
  \<open>amortizationPeriod\<close> years, or its last year's ending balance is \<open>\<le> 0\<close>.
\<close>

theorem schedule_ends_paid_or_complete:
  "length (amortizationSchedule (calculateMortgage s)) = amortizationPeriod s \<or>
   amortizationSchedule (calculateMortgage s) \<noteq> [] \<and>
   js_le (endingBalance (last (amortizationSchedule (calculateMortgage s)))) (Num 0)"
  using yearLoop_schedule_end[of "initialVars (mortgageAmount s)" "scenarioParams s"]
  by (simp add: calculateMortgage_run scenarioRun_yearLoop)

text \<open>
  For a non-negative principal, rate and payment increase and at least one year, the
  schedule repays the principal exactly, except in the interest-free accelerated case:
  the balance never exceeds that of the plain loan, which is 0 after its last payment
  (the accelerated payment is at least the plain one, and extra payments, increases and
  lump sums only lower the balance).
\<close>

theorem schedule_repays_the_principal:
  assumes "0 \<le> principalOf s" "0 \<le> interestRate s" "0 < amortizationPeriod s"
    "0 \<le> paymentIncrease s"
    "\<not> (interestRate s = 0 \<and>
      (paymentFrequency s = ''accelerated_biweekly'' \<or> paymentFrequency s = ''accelerated_weekly''))"
  shows "sumPrincipalPaid (amortizationSchedule (calculateMortgage s)) =
           totalMortgage (calculateMortgage s)"
proof -
  have "balance (scenarioRun s) = Num 0" by (rule scenario_pays_off[OF assms])
  with schedule_sum[of s] have "Num (principalOf s) - sumPrincipalPaid (yearlySchedule (scenarioRun s)) = Num 0"
    by (simp add: mortgageAmount_Num)
  then have "sumPrincipalPaid (yearlySchedule (scenarioRun s)) = Num (principalOf s)"
    by (rule js_sub_eq_zero)
  then show ?thesis by (simp add: calculateMortgage_run mortgageAmount_Num)
qed

text \<open>
  Claim C9, at the interest-free defaults with accelerated bi-weekly payments (the input
  of claim C2): the payment is \<open>NaN\<close>, the balance becomes \<open>NaN\<close> at the first payment and is
  never \<open>\<le> 0\<close>, so the schedule runs its 25 years and the principal paid sums to \<open>NaN\<close>,
  not to the 400000 financed.
\<close>

theorem C9_zero_rate_accelerated_schedule_is_not_a_number:
  "totalMortgage (calculateMortgage zeroRateAccelerated) = Num 400000 \<and>
   length (amortizationSchedule (calculateMortgage zeroRateAccelerated)) = 25 \<and>
   sumPrincipalPaid (amortizationSchedule (calculateMortgage zeroRateAccelerated)) = NaN"
proof -
  have z: "interestRate zeroRateAccelerated = 0"
    "paymentFrequency zeroRateAccelerated = ''accelerated_biweekly''"
    "principalOf zeroRateAccelerated = 400000" "amortizationPeriod zeroRateAccelerated = 25"
    by (simp_all add: zeroRateAccelerated_def principalOf_def)
  from zero_rate_accelerated_run(2,3)[of zeroRateAccelerated] z
  show ?thesis by (simp add: calculateMortgage_run mortgageAmount_Num)
qed

section \<open>Totality\<close>






text \<open>
  Claim C2, at the interest-free defaults with accelerated bi-weekly payments, an input
  the form produces: the accelerated branch evaluates the annuity formula with no test
  for a zero rate, so the payment is 0/0. The monthly payment and the lifetime interest
  of the result are \<open>NaN\<close>, not numbers.
\<close>

theorem C2_zero_rate_accelerated_is_not_a_number:
  "paymentAmount zeroRateAccelerated = NaN \<and>
   monthlyPayment (calculateMortgage zeroRateAccelerated) = NaN \<and>
   totalInterestLifetime (calculateMortgage zeroRateAccelerated) = NaN \<and>
   \<not> isNum (monthlyPayment (calculateMortgage zeroRateAccelerated)) \<and>
   \<not> isNum (totalInterestLifetime (calculateMortgage zeroRateAccelerated))"
proof -
  have z: "interestRate zeroRateAccelerated = 0"
    "paymentFrequency zeroRateAccelerated = ''accelerated_biweekly''"
    "principalOf zeroRateAccelerated = 400000" "amortizationPeriod zeroRateAccelerated = 25"
    by (simp_all add: zeroRateAccelerated_def principalOf_def)
  have "paymentAmount zeroRateAccelerated = NaN"
    by (rule paymentAmount_NaN) (simp_all add: z)
  moreover have "totalInterestPaid (scenarioRun zeroRateAccelerated) = NaN"
    by (rule zero_rate_accelerated_run(1)) (simp_all add: z)
  ultimately show ?thesis using z(2) by (simp add: calculateMortgage_run)
qed


subsection \<open>The extra payment in the interest-free accelerated scenario\<close>

text \<open>
  Claim C7, at the interest-free defaults with accelerated bi-weekly payments (the input
  of claim C2) and extra payments 0 and 200: the payment is \<open>NaN\<close> in both scenarios, so
  both lifetime interests are \<open>NaN\<close> and the one for the larger extra payment is not \<open>\<le>\<close>
  the other. The effective amortizations are in order.
\<close>

theorem C7_zero_rate_accelerated_interest_is_not_ordered:
  "totalInterestLifetime (calculateMortgage (zeroRateAccelerated\<lparr>extraPayment := 0\<rparr>)) = NaN \<and>
   totalInterestLifetime (calculateMortgage (zeroRateAccelerated\<lparr>extraPayment := 200\<rparr>)) = NaN \<and>
   \<not> js_le (totalInterestLifetime (calculateMortgage (zeroRateAccelerated\<lparr>extraPayment := 200\<rparr>)))
            (totalInterestLifetime (calculateMortgage (zeroRateAccelerated\<lparr>extraPayment := 0\<rparr>))) \<and>
   js_le (effectiveAmortization (calculateMortgage (zeroRateAccelerated\<lparr>extraPayment := 200\<rparr>)))
         (effectiveAmortization (calculateMortgage (zeroRateAccelerated\<lparr>extraPayment := 0\<rparr>)))"
proof -
  have z: "interestRate (zeroRateAccelerated\<lparr>extraPayment := e\<rparr>) = 0"
    "paymentFrequency (zeroRateAccelerated\<lparr>extraPayment := e\<rparr>) = ''accelerated_biweekly''"
    "principalOf (zeroRateAccelerated\<lparr>extraPayment := e\<rparr>) = 400000"
    "amortizationPeriod (zeroRateAccelerated\<lparr>extraPayment := e\<rparr>) = 25" for e
    by (simp_all add: zeroRateAccelerated_def principalOf_def)
  have n: "totalInterestLifetime (calculateMortgage (zeroRateAccelerated\<lparr>extraPayment := e\<rparr>)) = NaN"
    for e
    using zero_rate_accelerated_run(1)[of "zeroRateAccelerated\<lparr>extraPayment := e\<rparr>"] z [of e]
    by (simp add: calculateMortgage_run)
  have r: "0 \<le> interestRate zeroRateAccelerated \<and> (0::real) \<le> 200"
    by (simp add: zeroRateAccelerated_def)
  from extraPayment_never_increases_interest_or_payoff_time [of zeroRateAccelerated 0 200] r
  have "js_le (effectiveAmortization (calculateMortgage (zeroRateAccelerated\<lparr>extraPayment := 200\<rparr>)))
              (effectiveAmortization (calculateMortgage (zeroRateAccelerated\<lparr>extraPayment := 0\<rparr>)))"
    by blast
  then show ?thesis by (simp add: n)
qed

section \<open>Yearly balances reconcile, and the extras are inside the principal paid\<close>










section \<open>What rounding does\<close>

lemmas f64_eval = binary64_def scaleUp.simps scaleDown.simps roundTiesToEven_def Let_def
  fadd_def fsub_def fmul_def fdiv_def minus_jsnum_def

text \<open>
  The interest-free default loan paid monthly, in double precision: the payment
  \<open>400000 / 300\<close> rounds down, and \<open>monthlyPayment \<times> 25 \<times> 12\<close> comes to
  399999.99999999994, within rounding of the 400000 financed and not equal to it.
\<close>

lemma zero_rate_product_roundings:
  "fdiv (Num 400000) (Num 300) = Num (5864062014805333 / 4398046511104)"
  "fmul (Num (5864062014805333 / 4398046511104)) (Num 25) = Num (2290649224533333 / 68719476736)"
  "fmul (Num (2290649224533333 / 68719476736)) (Num 12) = Num (6871947673599999 / 17179869184)"
  by (simp_all add: f64_eval)

theorem zero_rate_product_in_double_precision:
  "fmul (fmul (fdiv (Num 400000) (Num 300)) (Num 25)) (Num 12) =
     Num (6871947673599999 / 17179869184) \<and>
   fmul (fmul (fdiv (Num 400000) (Num 300)) (Num 25)) (Num 12) \<noteq> Num 400000 \<and>
   withinRounding 400000 (fmul (fmul (fdiv (Num 400000) (Num 300)) (Num 25)) (Num 12))
     (Num 400000)"
  by (simp add: zero_rate_product_roundings withinRounding_def isNum_def)






section \<open>Comparison differencing\<close>

text \<open>
  Claim C8. For every pair of scenarios, the comparison keeps the two results of
  \<open>calculateMortgage\<close> unchanged and each difference is one subtraction of their fields:
  B minus A for the monthly payment, the interest over the term, the lifetime interest
  and the balance at the end of the term, and A minus B for \<open>timeShaved\<close> (from the
  effective amortizations). Nothing else is applied to them.
\<close>

theorem C8_differences_are_subtractions:
  "scenarioA (calculateComparison sA sB) = calculateMortgage sA \<and>
   scenarioB (calculateComparison sA sB) = calculateMortgage sB \<and>
   monthlyPayment_d (differences_c (calculateComparison sA sB)) =
     monthlyPayment (calculateMortgage sB) - monthlyPayment (calculateMortgage sA) \<and>
   totalInterestTerm_d (differences_c (calculateComparison sA sB)) =
     totalInterestTerm (calculateMortgage sB) - totalInterestTerm (calculateMortgage sA) \<and>
   totalInterestLifetime_d (differences_c (calculateComparison sA sB)) =
     totalInterestLifetime (calculateMortgage sB) - totalInterestLifetime (calculateMortgage sA) \<and>
   balanceAtEndOfTerm_d (differences_c (calculateComparison sA sB)) =
     balanceAtEndOfTerm (calculateMortgage sB) - balanceAtEndOfTerm (calculateMortgage sA) \<and>
   timeShaved (differences_c (calculateComparison sA sB)) =
     effectiveAmortization (calculateMortgage sA) - effectiveAmortization (calculateMortgage sB)"
  by (simp add: calculateComparison_def differences_def Let_def)

end
